theory Spec2Isabelle
  imports Complex_Main "HOL-Library.Word" "HOL-Library.Sublist"
begin

section \<open>JavaScript values used by the program\<close>

text \<open>
  A JavaScript string is modelled as an Isabelle \<open>string\<close>; a \<open>Buffer\<close> is a list of
  bytes. A thrown \<open>Error\<close> or \<open>TypeError\<close> is a value carrying its message; errors
  raised inside Node's own file-system calls are \<open>SystemError\<close> with the error code.
  A value that \<open>express.json\<close> parses from a request is a \<open>json\<close>; an absent property
  (\<open>undefined\<close>) is \<open>None\<close> of a \<open>json option\<close>.
\<close>

type_synonym byte = "8 word"
type_synonym buffer = "byte list"

datatype error = Error string | TypeError string | SystemError string

datatype json =
    JNull
  | JBool bool
  | JNumber real
  | JString string
  | JArray "json list"
  | JObject "(string \<times> json) list"

text \<open>Truthiness, as \<open>||\<close> and \<open>? :\<close> test it.\<close>

fun truthy :: "json \<Rightarrow> bool" where
  "truthy JNull = False"
| "truthy (JBool b) = b"
| "truthy (JNumber x) = (x \<noteq> 0)"
| "truthy (JString s) = (s \<noteq> [])"
| "truthy (JArray xs) = True"
| "truthy (JObject kvs) = True"

subsection \<open>String built-ins\<close>

text \<open>\<open>String.prototype.split(sep)\<close> for a one-character separator: always at least one part.\<close>

fun split :: "char \<Rightarrow> string \<Rightarrow> string list" where
  "split sep [] = [[]]"
| "split sep (c # cs) =
     (if c = sep then [] # split sep cs
      else (case split sep cs of [] \<Rightarrow> [[c]] | p # ps \<Rightarrow> (c # p) # ps))"

text \<open>\<open>Array.prototype.join(sep)\<close>.\<close>

fun join :: "char \<Rightarrow> string list \<Rightarrow> string" where
  "join sep [] = []"
| "join sep [x] = x"
| "join sep (x # y # ys) = x @ sep # join sep (y # ys)"


text \<open>White space as \<open>trim\<close> and \<open>parseInt\<close> skip it (the code units below 256).\<close>

definition is_ws :: "char \<Rightarrow> bool" where
  "is_ws c = (of_char c \<in> {9, 10, 11, 12, 13, 32, 160 :: nat})"


definition is_digit :: "char \<Rightarrow> bool" where
  "is_digit c = (48 \<le> (of_char c :: nat) \<and> (of_char c :: nat) \<le> 57)"

definition digit_char :: "nat \<Rightarrow> char" where
  "digit_char d = char_of (48 + d)"

text \<open>The decimal text of a non-negative integer, as a template literal prints it.\<close>

fun show_nat :: "nat \<Rightarrow> string" where
  "show_nat n = (if n < 10 then [digit_char n] else show_nat (n div 10) @ [digit_char (n mod 10)])"

declare show_nat.simps [simp del]

definition digits_val :: "string \<Rightarrow> nat" where
  "digits_val ds = foldl (\<lambda>a c. 10 * a + (of_char c - 48)) 0 ds"

text \<open>
  \<open>parseInt(s, 10)\<close>: leading white space is skipped, one sign is accepted, then the
  longest run of decimal digits is read and whatever follows is ignored; \<open>None\<close> is
  \<open>NaN\<close> (no digit read).
\<close>

definition parseInt :: "string \<Rightarrow> int option" where
  "parseInt s =
     (let t = dropWhile is_ws s;
          neg = (t \<noteq> [] \<and> hd t = CHR ''-'');
          u = (if t \<noteq> [] \<and> (hd t = CHR ''-'' \<or> hd t = CHR ''+'') then tl t else t);
          ds = takeWhile is_digit u
      in if ds = [] then None
         else Some (if neg then - int (digits_val ds) else int (digits_val ds)))"

section \<open>The platform: Node's encodings and its RSA-OAEP primitive\<close>

text \<open>
  The calls into Node that the program makes and whose code is not part of the
  repository: the UTF-8 and base64 conversions of \<open>Buffer\<close>, \<open>crypto.publicEncrypt\<close> and
  \<open>crypto.privateDecrypt\<close> with OAEP padding and SHA-256 (the \<open>nat\<close> argument of
  \<open>publicEncrypt\<close> is the random seed OAEP draws for that call), \<open>JSON.stringify\<close>,
  the conversion to text that a template literal applies to a value that is not a
  string (it throws for an object whose \<open>toString\<close> and \<open>valueOf\<close> give no primitive), and
  the case conversions of strings.
\<close>

record 'j platform =
  utf8_encode :: "string \<Rightarrow> buffer"
  utf8_decode :: "buffer \<Rightarrow> string"
  base64_encode :: "buffer \<Rightarrow> string"
  base64_decode :: "string \<Rightarrow> buffer"
  publicEncrypt :: "string \<Rightarrow> nat \<Rightarrow> buffer \<Rightarrow> error + buffer"
  privateDecrypt :: "string \<Rightarrow> buffer \<Rightarrow> error + buffer"
  stringify :: "'j \<Rightarrow> string"
  toText :: "'j \<Rightarrow> error + string"
  toLowerCase :: "string \<Rightarrow> string"
  toUpperCase :: "string \<Rightarrow> string"

section \<open>The chunked cipher\<close>

definition MAX_CHUNK_SIZE :: nat where
  "MAX_CHUNK_SIZE = 190"

text \<open>\<open>Buffer.prototype.slice(start, end)\<close> for indices that are not negative.\<close>

definition slice :: "buffer \<Rightarrow> nat \<Rightarrow> nat \<Rightarrow> buffer" where
  "slice buf start stop = take (stop - start) (drop start buf)"

text \<open>The loop \<open>for (let i = 0; i < textBuffer.length; i += MAX_CHUNK_SIZE)\<close> of \<open>encrypt\<close>.\<close>

function split_loop :: "buffer \<Rightarrow> nat \<Rightarrow> buffer list \<Rightarrow> buffer list" where
  "split_loop textBuffer i chunks =
     (if i < length textBuffer
      then split_loop textBuffer (i + MAX_CHUNK_SIZE)
             (chunks @ [slice textBuffer i (i + MAX_CHUNK_SIZE)])
      else chunks)"
  by pat_completeness auto
termination
  by (relation "measure (\<lambda>(textBuffer, i, chunks). length textBuffer - i)")
     (auto simp: MAX_CHUNK_SIZE_def)

declare split_loop.simps [simp del]

text \<open>
  \<open>chunks.map(chunk => crypto.publicEncrypt(...).toString('base64'))\<close>: the chunks are
  encrypted in order, and the first call that throws ends the map.
\<close>

fun encrypt_chunks ::
  "'j platform \<Rightarrow> string \<Rightarrow> (nat \<Rightarrow> nat) \<Rightarrow> nat \<Rightarrow> buffer list \<Rightarrow> error + string list" where
  "encrypt_chunks L publicKey rnd index [] = Inr []"
| "encrypt_chunks L publicKey rnd index (chunk # rest) =
     (case publicEncrypt L publicKey (rnd index) chunk of
        Inl e \<Rightarrow> Inl e
      | Inr encrypted \<Rightarrow>
          (case encrypt_chunks L publicKey rnd (Suc index) rest of
             Inl e \<Rightarrow> Inl e
           | Inr es \<Rightarrow> Inr (base64_encode L encrypted # es)))"

text \<open>
  \<open>encrypt(text, publicKey)\<close>. The argument \<open>text\<close> is \<open>None\<close> when the caller passes a
  value that is not a string (\<open>undefined\<close>).
\<close>

definition encrypt ::
  "'j platform \<Rightarrow> string option \<Rightarrow> string \<Rightarrow> (nat \<Rightarrow> nat) \<Rightarrow> error + string" where
  "encrypt L text publicKey rnd =
     (case text of
        None \<Rightarrow> Inl (Error ''Text must be a non-empty string'')
      | Some t \<Rightarrow>
          if t = [] then Inl (Error ''Text must be a non-empty string'')
          else if publicKey = [] then Inl (Error ''Public key must be a non-empty string'')
          else
            let textBuffer = utf8_encode L t;
                chunks = split_loop textBuffer 0 []
            in (case encrypt_chunks L publicKey rnd 0 chunks of
                  Inl e \<Rightarrow> Inl e
                | Inr encryptedChunks \<Rightarrow>
                    Inr (show_nat (length encryptedChunks) @ CHR '':'' # join CHR '':'' encryptedChunks)))"

text \<open>
  The \<open>map\<close> of \<open>decrypt\<close>: each field is decoded from base64 and decrypted; whatever the
  decryption throws is replaced by the error that names the chunk, counted from 1.
\<close>

definition chunk_failed :: "nat \<Rightarrow> error" where
  "chunk_failed index =
     Error (''Decryption failed for chunk '' @ show_nat (index + 1) @
            ''. The private key may be incorrect or the data may be corrupted.'')"

fun decrypt_chunks ::
  "'j platform \<Rightarrow> string \<Rightarrow> nat \<Rightarrow> string list \<Rightarrow> error + buffer list" where
  "decrypt_chunks L privateKey index [] = Inr []"
| "decrypt_chunks L privateKey index (encryptedChunk # rest) =
     (case privateDecrypt L privateKey (base64_decode L encryptedChunk) of
        Inl e \<Rightarrow> Inl (chunk_failed index)
      | Inr decrypted \<Rightarrow>
          (case decrypt_chunks L privateKey (Suc index) rest of
             Inl e \<Rightarrow> Inl e
           | Inr ds \<Rightarrow> Inr (decrypted # ds)))"

definition invalid_format :: error where
  "invalid_format =
     Error ''Invalid encrypted data format. Expected format: chunkCount:encryptedChunk1:encryptedChunk2:...''"

definition invalid_chunk_count :: error where
  "invalid_chunk_count = Error ''Invalid chunk count in encrypted data''"

definition decrypt :: "'j platform \<Rightarrow> string \<Rightarrow> string \<Rightarrow> error + string" where
  "decrypt L encryptedData privateKey =
     (if encryptedData = [] then Inl (Error ''Encrypted data must be a non-empty string'')
      else if privateKey = [] then Inl (Error ''Private key must be a non-empty string'')
      else
        let parts = split CHR '':'' encryptedData
        in if length parts < 2 then Inl invalid_format
           else
             (case parseInt (hd parts) of
                None \<Rightarrow> Inl invalid_chunk_count
              | Some chunkCount \<Rightarrow>
                  if chunkCount < 1 \<or> chunkCount \<noteq> int (length parts) - 1
                  then Inl invalid_chunk_count
                  else
                    (case decrypt_chunks L privateKey 0 (tl parts) of
                       Inl e \<Rightarrow> Inl e
                     | Inr decryptedChunks \<Rightarrow> Inr (utf8_decode L (concat decryptedChunks)))))"

section \<open>The file system\<close>

text \<open>
  A path is the list of the segments of a normalised absolute path; the root is \<open>[]\<close>.
  A file system maps a path to what is there. The calls fail for the structural reasons
  only (a missing parent, a file where a directory is needed, a directory where a file
  is needed).
\<close>

datatype node = Dir | File string

type_synonym path = "string list"
type_synonym filesystem = "path \<Rightarrow> node option"

text \<open>
  \<open>path.join(base, s)\<close> on POSIX, for a normalised absolute \<open>base\<close>: the segments of
  \<open>s\<close> are appended, an empty segment and \<open>.\<close> are dropped, and \<open>..\<close> removes the
  last segment (the root has no parent).
\<close>

definition normalize_segment :: "path \<Rightarrow> string \<Rightarrow> path" where
  "normalize_segment acc seg =
     (if seg = [] \<or> seg = ''.'' then acc
      else if seg = ''..'' then butlast acc
      else acc @ [seg])"

definition path_join :: "path \<Rightarrow> string \<Rightarrow> path" where
  "path_join base s = foldl normalize_segment base (split CHR ''/'' s)"

definition existsSync :: "filesystem \<Rightarrow> path \<Rightarrow> bool" where
  "existsSync fs p = (p = [] \<or> fs p \<noteq> None)"

definition is_directory :: "filesystem \<Rightarrow> path \<Rightarrow> bool" where
  "is_directory fs p = (p = [] \<or> fs p = Some Dir)"

definition is_file :: "filesystem \<Rightarrow> path \<Rightarrow> bool" where
  "is_file fs p = (case fs p of Some (File c) \<Rightarrow> True | _ \<Rightarrow> False)"

text \<open>\<open>fs.mkdirSync(p, { recursive: true })\<close>.\<close>

definition mkdirSync :: "filesystem \<Rightarrow> path \<Rightarrow> error + filesystem" where
  "mkdirSync fs p =
     (if list_ex (is_file fs) (tl (prefixes (butlast p))) then Inl (SystemError ''ENOTDIR'')
      else if is_file fs p then Inl (SystemError ''EEXIST'')
      else Inr (\<lambda>q. if q \<noteq> [] \<and> prefix q p \<and> fs q = None then Some Dir else fs q))"


definition writable :: "filesystem \<Rightarrow> path \<Rightarrow> error option" where
  "writable fs p =
     (if \<not> is_directory fs (butlast p)
      then Some (SystemError (if is_file fs (butlast p) then ''ENOTDIR'' else ''ENOENT''))
      else if is_directory fs p then Some (SystemError ''EISDIR'')
      else None)"

text \<open>\<open>fs.writeFileSync(p, data, 'utf8')\<close> replaces the content of the file.\<close>

definition writeFileSync :: "filesystem \<Rightarrow> path \<Rightarrow> string \<Rightarrow> error + filesystem" where
  "writeFileSync fs p content =
     (case writable fs p of
        Some e \<Rightarrow> Inl e
      | None \<Rightarrow> Inr (fs(p \<mapsto> File content)))"

text \<open>\<open>fs.appendFileSync(p, data, 'utf8')\<close> adds to the end of the file, creating it if absent.\<close>

definition appendFileSync :: "filesystem \<Rightarrow> path \<Rightarrow> string \<Rightarrow> error + filesystem" where
  "appendFileSync fs p content =
     (case writable fs p of
        Some e \<Rightarrow> Inl e
      | None \<Rightarrow>
          Inr (fs(p \<mapsto> File ((case fs p of Some (File old) \<Rightarrow> old | _ \<Rightarrow> []) @ content))))"

section \<open>The server\<close>

record config =
  API_KEY :: string
  ACCESS_KEY :: string
  PUBLIC_KEY :: string
  DATA_DIR :: path

text \<open>
  The parsed body of a request to \<open>POST /api\<close>, an object: each property the handler
  reads is absent (\<open>None\<close>) or any JSON value.
\<close>

record body =
  Type :: "json option"
  Email :: "json option"
  Time :: "json option"
  Field' :: "json option"
  Message :: "json option"
  Data :: "json option"
  key :: "json option"

datatype json_reply =
    ErrorJson string
  | ErrorMessageJson string error
  | SuccessJson bool string

datatype response = Response nat json_reply

text \<open>\<open>x || d\<close> for a string that may be absent: the empty string is falsy.\<close>

definition or_default :: "string option \<Rightarrow> string \<Rightarrow> string" where
  "or_default x d = (case x of None \<Rightarrow> d | Some s \<Rightarrow> if s = [] then d else s)"

text \<open>\<open>x || d\<close> for a property of the body.\<close>

definition or_else :: "json option \<Rightarrow> json \<Rightarrow> json" where
  "or_else x d = (case x of None \<Rightarrow> d | Some v \<Rightarrow> if truthy v then v else d)"

text \<open>The text of \<open>${v}\<close> in a template literal.\<close>

definition template :: "json platform \<Rightarrow> json \<Rightarrow> error + string" where
  "template L v = (case v of JString s \<Rightarrow> Inr s | _ \<Rightarrow> toText L v)"

text \<open>
  \<open>x?.method()\<close> for a method of strings: \<open>undefined\<close> for an absent or \<open>null\<close> \<open>x\<close>, the
  method's result for a string, and a \<open>TypeError\<close> for any other value, which has no such
  method.
\<close>

definition optional_call :: "(string \<Rightarrow> string) \<Rightarrow> string \<Rightarrow> json option \<Rightarrow> error + string option" where
  "optional_call method name x =
     (case x of
        None \<Rightarrow> Inr None
      | Some JNull \<Rightarrow> Inr None
      | Some (JString s) \<Rightarrow> Inr (Some (method s))
      | Some v \<Rightarrow> Inl (TypeError (name @ '' is not a function'')))"

definition LF :: string where
  "LF = [CHR 0x0A]"

definition ensureUserFolder :: "config \<Rightarrow> filesystem \<Rightarrow> string \<Rightarrow> error + (path \<times> filesystem)" where
  "ensureUserFolder cfg fs email =
     (let userFolder = path_join (DATA_DIR cfg) email
      in if \<not> existsSync fs userFolder
         then (case mkdirSync fs userFolder of
                 Inl e \<Rightarrow> Inl e
               | Inr fs' \<Rightarrow> Inr (userFolder, fs'))
         else Inr (userFolder, fs))"

text \<open>
  The call \<open>ensureUserFolder(userEmail)\<close> of the handler, where \<open>userEmail\<close> is any value:
  \<open>path.join\<close> throws a \<open>TypeError\<close> for an argument that is not a string.
\<close>

definition ensure_folder_of :: "config \<Rightarrow> filesystem \<Rightarrow> json \<Rightarrow> error + (path \<times> filesystem)" where
  "ensure_folder_of cfg fs userEmail =
     (case userEmail of
        JString email \<Rightarrow> ensureUserFolder cfg fs email
      | _ \<Rightarrow> Inl (TypeError ''The path argument must be of type string''))"

definition category_types :: "string list" where
  "category_types = [''history'', ''cookies'', ''bookmarks'', ''downloads'']"

definition log_types :: "string list" where
  "log_types = [''opened'', ''input'', ''geolocation'']"

text \<open>
  The branch for \<open>history\<close>, \<open>cookies\<close>, \<open>bookmarks\<close> and \<open>downloads\<close>
  (\<open>server.js\<close>, lines 301 to 325). Each function of the handler returns the error
  thrown, if any, and the file system left.
\<close>

definition save_category ::
  "config \<Rightarrow> json platform \<Rightarrow> (nat \<Rightarrow> nat) \<Rightarrow> filesystem \<Rightarrow> path \<Rightarrow> string \<Rightarrow> body
     \<Rightarrow> error option \<times> filesystem" where
  "save_category cfg L rnd fs1 userFolder messageType req =
     (let filePath = path_join userFolder (messageType @ ''.txt'');
          jsonContent = map_option (stringify L) (Data req)
      in case encrypt L jsonContent (PUBLIC_KEY cfg) rnd of
           Inl e \<Rightarrow> (Some e, fs1)
         | Inr encryptedContent \<Rightarrow>
             (case writeFileSync fs1 filePath encryptedContent of
                Inl e \<Rightarrow> (Some e, fs1)
              | Inr fs2 \<Rightarrow> (None, fs2)))"

text \<open>The text of \<open>logEntry\<close> (lines 329 to 340); the conversions of the field and the message may throw.\<close>

definition log_entry :: "json platform \<Rightarrow> string \<Rightarrow> string \<Rightarrow> string \<Rightarrow> body \<Rightarrow> error + string" where
  "log_entry L timestamp typeUpper messageType req =
     (if messageType = ''opened'' \<or> messageType = ''input''
      then
        (case template L (or_else (Field' req) (JString ''N/A'')) of
           Inl e \<Rightarrow> Inl e
         | Inr field \<Rightarrow>
             (case template L (or_else (Message req) (JString ''N/A'')) of
                Inl e \<Rightarrow> Inl e
              | Inr message \<Rightarrow>
                  Inr (''['' @ timestamp @ ''] '' @ typeUpper @ LF @
                       ''  Field: '' @ field @ LF @
                       ''  Message: '' @ message @ LF @
                       ''---'' @ LF @ LF)))
      else
        Inr (''['' @ timestamp @ ''] '' @ typeUpper @ LF @
             ''  Data: '' @
             (case Data req of
                None \<Rightarrow> ''N/A''
              | Some d \<Rightarrow> if truthy d then stringify L d else ''N/A'') @ LF @
             ''---'' @ LF @ LF))"

text \<open>The branch for \<open>opened\<close>, \<open>input\<close> and \<open>geolocation\<close> (lines 327 to 356).\<close>

definition append_log ::
  "json platform \<Rightarrow> filesystem \<Rightarrow> path \<Rightarrow> string \<Rightarrow> string \<Rightarrow> string \<Rightarrow> body
     \<Rightarrow> error option \<times> filesystem" where
  "append_log L fs1 userFolder timestamp typeUpper messageType req =
     (let logsPath = path_join userFolder ''logs.txt''
      in case log_entry L timestamp typeUpper messageType req of
           Inl e \<Rightarrow> (Some e, fs1)
         | Inr logEntry \<Rightarrow>
             (case appendFileSync fs1 logsPath logEntry of
                Inl e \<Rightarrow> (Some e, fs1)
              | Inr fs2 \<Rightarrow> (None, fs2)))"

text \<open>
  The branch for any other type (lines 358 to 373), which only writes to the console:
  with \<open>Data\<close> present nothing it prints can throw, and without \<open>Data\<close> it prints the
  field and the message.
\<close>

definition report_only :: "json platform \<Rightarrow> filesystem \<Rightarrow> body \<Rightarrow> error option \<times> filesystem" where
  "report_only L fs1 req =
     (case Data req of
        Some d \<Rightarrow> (None, fs1)
      | None \<Rightarrow>
          (case template L (or_else (Field' req) (JString ''N/A'')) of
             Inl e \<Rightarrow> (Some e, fs1)
           | Inr field \<Rightarrow>
               (case template L (or_else (Message req) (JString ''N/A'')) of
                  Inl e \<Rightarrow> (Some e, fs1)
                | Inr message \<Rightarrow> (None, fs1))))"

text \<open>
  The \<open>try\<close> block of the handler after the key check (lines 286 to 380). The result is
  the error it threw, if any, and the file system it left. \<open>now\<close> is the server's clock
  reading, and \<open>rnd\<close> the randomness the encryption draws. The first line printed to the
  console holds \<open>${timestamp}\<close>, whose conversion may throw.
\<close>

definition process_message ::
  "config \<Rightarrow> json platform \<Rightarrow> (nat \<Rightarrow> nat) \<Rightarrow> string \<Rightarrow> filesystem \<Rightarrow> body
     \<Rightarrow> error option \<times> filesystem" where
  "process_message cfg L rnd now fs req =
     (let userEmail = or_else (Email req) (JString ''Unknown'')
      in case ensure_folder_of cfg fs userEmail of
           Inl e \<Rightarrow> (Some e, fs)
         | Inr (userFolder, fs1) \<Rightarrow>
             (case optional_call (toUpperCase L) ''Type?.toUpperCase'' (Type req) of
                Inl e \<Rightarrow> (Some e, fs1)
              | Inr upper \<Rightarrow>
                  (case template L (or_else (Time req) (JString now)) of
                     Inl e \<Rightarrow> (Some e, fs1)
                   | Inr timestamp \<Rightarrow>
                       (case optional_call (toLowerCase L) ''Type?.toLowerCase'' (Type req) of
                          Inl e \<Rightarrow> (Some e, fs1)
                        | Inr None \<Rightarrow> report_only L fs1 req
                        | Inr (Some messageType) \<Rightarrow>
                            if messageType \<in> set category_types
                            then save_category cfg L rnd fs1 userFolder messageType req
                            else if messageType \<in> set log_types
                            then append_log L fs1 userFolder timestamp
                                   (or_default upper ''MESSAGE'') messageType req
                            else report_only L fs1 req))))"

text \<open>The handler of \<open>POST /api\<close>: the response it sends and the file system it leaves.\<close>

definition api_post ::
  "config \<Rightarrow> json platform \<Rightarrow> (nat \<Rightarrow> nat) \<Rightarrow> string \<Rightarrow> filesystem \<Rightarrow> body
     \<Rightarrow> response \<times> filesystem" where
  "api_post cfg L rnd now fs req =
     (if key req \<noteq> Some (JString (API_KEY cfg))
      then (Response 401 (ErrorJson ''Unauthorized''), fs)
      else (case process_message cfg L rnd now fs req of
              (Some e, fs') \<Rightarrow> (Response 500 (ErrorMessageJson ''Internal server error'' e), fs')
            | (None, fs') \<Rightarrow> (Response 200 (SuccessJson True ''Message received''), fs')))"

text \<open>
  The server at work: the requests arrive one after the other, each with the seeds and
  the clock reading of its moment, and each is handled on the file system the one
  before it left.
\<close>

record request =
  payload :: body
  seeds :: "nat \<Rightarrow> nat"
  clock :: string

fun serve :: "config \<Rightarrow> json platform \<Rightarrow> filesystem \<Rightarrow> request list \<Rightarrow> response list \<times> filesystem" where
  "serve cfg L fs [] = ([], fs)"
| "serve cfg L fs (r # rs) =
     (case api_post cfg L (seeds r) (clock r) fs (payload r) of
        (answer, fs1) \<Rightarrow>
          (case serve cfg L fs1 rs of
             (answers, fs2) \<Rightarrow> (answer # answers, fs2)))"

section \<open>Start-up: loading the keys\<close>
















section \<open>Auxiliary notions for the statements\<close>

text \<open>The number of chunks that \<open>n\<close> bytes are split into.\<close>

definition chunk_total :: "nat \<Rightarrow> nat" where
  "chunk_total n = (n + (MAX_CHUNK_SIZE - 1)) div MAX_CHUNK_SIZE"

text \<open>
  What the statements below ask of the platform. Base64 text decodes to the bytes it
  was made from and has no colon in it. A key pair is valid for the cipher when both
  keys are given and every chunk the cipher can form (at most \<open>MAX_CHUNK_SIZE\<close> bytes,
  whatever the seed) is encrypted by the public key to something the private key
  decrypts to the same chunk; with OAEP and SHA-256 that is an RSA modulus of at least
  2048 bits.
\<close>

definition base64_ok :: "'j platform \<Rightarrow> bool" where
  "base64_ok L =
     (\<forall>b. base64_decode L (base64_encode L b) = b \<and> CHR '':'' \<notin> set (base64_encode L b))"

definition valid_key_pair :: "'j platform \<Rightarrow> string \<Rightarrow> string \<Rightarrow> bool" where
  "valid_key_pair L publicKey privateKey =
     (publicKey \<noteq> [] \<and> privateKey \<noteq> [] \<and>
      (\<forall>seed chunk. length chunk \<le> MAX_CHUNK_SIZE \<longrightarrow>
         (\<exists>c. publicEncrypt L publicKey seed chunk = Inr c \<and>
              privateDecrypt L privateKey c = Inr chunk)))"

text \<open>The values of \<open>chunkCount\<close> and \<open>encryptedChunks\<close> in \<open>decrypt\<close>, as functions of its input.\<close>

definition chunkCount :: "string \<Rightarrow> int option" where
  "chunkCount encryptedData = parseInt (hd (split CHR '':'' encryptedData))"

definition encryptedChunks :: "string \<Rightarrow> string list" where
  "encryptedChunks encryptedData = tl (split CHR '':'' encryptedData)"

section \<open>A sample platform and a sample server\<close>

text \<open>
  A small platform on which the functions can be run: text is encoded one byte per
  character, bytes are written as two letters each, and the cipher puts a tag derived
  from the key and the seed in front of the chunk, refusing chunks longer than
  \<open>MAX_CHUNK_SIZE\<close> and ciphertexts whose tag does not fit the key. A JSON string is
  serialised between quotes and any other value is written as the name of its kind;
  the conversion to text throws for an object and an array.
\<close>

definition sample_encode64 :: "buffer \<Rightarrow> string" where
  "sample_encode64 b =
     concat (map (\<lambda>x. [char_of (65 + unat x div 16), char_of (65 + unat x mod 16)]) b)"

fun sample_decode64 :: "string \<Rightarrow> buffer" where
  "sample_decode64 (h # l # rest) =
     of_nat ((of_char h - 65) * 16 + (of_char l - 65)) # sample_decode64 rest"
| "sample_decode64 _ = []"

definition sample_publicEncrypt :: "string \<Rightarrow> nat \<Rightarrow> buffer \<Rightarrow> error + buffer" where
  "sample_publicEncrypt k seed m =
     (if k = [] \<or> MAX_CHUNK_SIZE < length m then Inl (Error ''encrypt'')
      else Inr (of_nat (length k) # of_nat seed # m))"

definition sample_privateDecrypt :: "string \<Rightarrow> buffer \<Rightarrow> error + buffer" where
  "sample_privateDecrypt k c =
     (case c of
        tag # seed # m \<Rightarrow> if tag = of_nat (length k) then Inr m else Inl (Error ''decrypt'')
      | _ \<Rightarrow> Inl (Error ''decrypt''))"

definition ascii_lower :: "char \<Rightarrow> char" where
  "ascii_lower c =
     (if 65 \<le> (of_char c :: nat) \<and> (of_char c :: nat) \<le> 90
      then char_of (of_char c + 32 :: nat) else c)"

definition ascii_upper :: "char \<Rightarrow> char" where
  "ascii_upper c =
     (if 97 \<le> (of_char c :: nat) \<and> (of_char c :: nat) \<le> 122
      then char_of (of_char c - 32 :: nat) else c)"

fun sample_kind :: "json \<Rightarrow> string" where
  "sample_kind JNull = ''null''"
| "sample_kind (JBool b) = (if b then ''true'' else ''false'')"
| "sample_kind (JNumber x) = ''number''"
| "sample_kind (JString s) = CHR 0x22 # s @ [CHR 0x22]"
| "sample_kind (JArray xs) = ''array''"
| "sample_kind (JObject kvs) = ''object''"

fun sample_toText :: "json \<Rightarrow> error + string" where
  "sample_toText (JString s) = Inr s"
| "sample_toText (JArray xs) = Inl (TypeError ''Cannot convert object to primitive value'')"
| "sample_toText (JObject kvs) = Inl (TypeError ''Cannot convert object to primitive value'')"
| "sample_toText v = Inr (sample_kind v)"

definition sample_platform :: "json platform" where
  "sample_platform =
     \<lparr>utf8_encode = map (\<lambda>c. of_nat (of_char c)),
      utf8_decode = map (\<lambda>b. char_of (unat b)),
      base64_encode = sample_encode64,
      base64_decode = sample_decode64,
      publicEncrypt = sample_publicEncrypt,
      privateDecrypt = sample_privateDecrypt,
      stringify = sample_kind,
      toText = sample_toText,
      toLowerCase = map ascii_lower,
      toUpperCase = map ascii_upper\<rparr>"

definition sample_config :: config where
  "sample_config =
     \<lparr>API_KEY = ''secret'', ACCESS_KEY = ''access'', PUBLIC_KEY = ''PUB'',
      DATA_DIR = [''srv'', ''data'']\<rparr>"

definition sample_fs :: filesystem where
  "sample_fs = (\<lambda>p. if p = [''srv''] \<or> p = [''srv'', ''data''] then Some Dir else None)"

definition sample_body :: body where
  "sample_body =
     \<lparr>Type = None, Email = Some (JString ''a@b.c''), Time = Some (JString ''noon''),
      Field' = Some (JString ''q''), Message = Some (JString ''hi''), Data = None,
      key = Some (JString ''secret'')\<rparr>"

definition sample_rnd :: "nat \<Rightarrow> nat" where
  "sample_rnd i = 7"



text \<open>The sample file system once the directory of the identity \<open>a@b.c\<close> is there.\<close>

definition sample_fs_user :: filesystem where
  "sample_fs_user =
     (\<lambda>q. if q \<noteq> [] \<and> prefix q [''srv'', ''data'', ''a@b.c''] \<and> sample_fs q = None
          then Some Dir else sample_fs q)"

text \<open>
  Three requests in a row: one whose processing throws, one without the key, and one of
  an unknown type.
\<close>

definition sample_run :: "request list" where
  "sample_run =
     [\<lparr>payload = sample_body\<lparr>Type := Some (JString ''history'')\<rparr>, seeds = sample_rnd, clock = ''now''\<rparr>,
      \<lparr>payload = sample_body\<lparr>key := None\<rparr>, seeds = sample_rnd, clock = ''now''\<rparr>,
      \<lparr>payload = sample_body\<lparr>Type := Some (JString ''ping'')\<rparr>, seeds = sample_rnd, clock = ''now''\<rparr>]"



section \<open>Strings, numbers and tokens\<close>

lemma split_nonempty: "split sep s \<noteq> []"
  by (induction s) (auto split: list.splits)

lemma split_length: "length (split sep s) = Suc (count_list s sep)"
  by (induction s) (auto split: list.splits simp: split_nonempty)

lemma split_append_sep:
  "sep \<notin> set a \<Longrightarrow> split sep (a @ sep # rest) = a # split sep rest"
  by (induction a) (auto split: list.splits)

lemma split_no_sep: "sep \<notin> set a \<Longrightarrow> split sep a = [a]"
  by (induction a) (auto split: list.splits)

lemma split_join:
  "xs \<noteq> [] \<Longrightarrow> \<forall>x \<in> set xs. sep \<notin> set x \<Longrightarrow> split sep (join sep xs) = xs"
  by (induction sep xs rule: join.induct) (auto simp: split_append_sep split_no_sep)

lemma hd_split: "hd (split sep s) = takeWhile (\<lambda>c. c \<noteq> sep) s"
  by (induction s) (auto split: list.splits simp: split_nonempty)

lemma digit_char_of_char: "d < 10 \<Longrightarrow> of_char (digit_char d) = 48 + d"
  by (simp add: digit_char_def)

lemma is_digit_digit_char: "d < 10 \<Longrightarrow> is_digit (digit_char d)"
  by (simp add: is_digit_def digit_char_def)

lemma show_nat_digits: "\<forall>c \<in> set (show_nat n). is_digit c"
proof (induction n rule: show_nat.induct)
  case (1 n)
  show ?case
  proof (cases "n < 10")
    case True
    then show ?thesis by (subst show_nat.simps) (simp add: is_digit_digit_char)
  next
    case False
    with 1 show ?thesis by (subst show_nat.simps) (simp add: is_digit_digit_char)
  qed
qed

lemma show_nat_nonempty: "show_nat n \<noteq> []"
  by (subst show_nat.simps) simp

lemma digits_val_snoc: "digits_val (ds @ [c]) = 10 * digits_val ds + (of_char c - 48)"
  by (simp add: digits_val_def)

lemma digits_val_show_nat: "digits_val (show_nat n) = n"
proof (induction n rule: show_nat.induct)
  case (1 n)
  show ?case
  proof (cases "n < 10")
    case True
    then show ?thesis
      by (subst show_nat.simps) (simp add: digits_val_def digit_char_def)
  next
    case False
    with 1 show ?thesis
      by (subst show_nat.simps) (simp add: digits_val_snoc digit_char_def)
  qed
qed

lemma is_digit_not_ws: "is_digit c \<Longrightarrow> \<not> is_ws c"
  by (auto simp: is_digit_def is_ws_def)

lemma is_digit_not_sign: "is_digit c \<Longrightarrow> c \<noteq> CHR ''-'' \<and> c \<noteq> CHR ''+'' \<and> c \<noteq> CHR '':''"
  by (auto simp: is_digit_def)

lemma parseInt_digits:
  assumes "ds \<noteq> []" and "\<forall>c \<in> set ds. is_digit c"
  shows "parseInt ds = Some (int (digits_val ds))"
proof -
  from assms have h: "is_digit (hd ds)" by (cases ds) auto
  have dw: "dropWhile is_ws ds = ds"
    using assms(1) is_digit_not_ws [OF h] by (cases ds) auto
  have sg: "hd ds \<noteq> CHR ''-''" "hd ds \<noteq> CHR ''+''"
    using is_digit_not_sign [OF h] by auto
  have tw: "takeWhile is_digit ds = ds"
    using assms(2) by (simp add: takeWhile_eq_all_conv)
  show ?thesis
    by (simp add: parseInt_def Let_def dw sg tw assms(1))
qed

lemma parseInt_show_nat: "parseInt (show_nat n) = Some (int n)"
  using parseInt_digits [OF show_nat_nonempty show_nat_digits, of n]
  by (simp add: digits_val_show_nat)

lemma show_nat_no_colon: "CHR '':'' \<notin> set (show_nat n)"
  using show_nat_digits [of n] is_digit_not_sign by blast

section \<open>The chunks of a buffer\<close>

lemma count_step:
  assumes "0 < M" and "i < n"
  shows "(n - i + (M - 1)) div M = Suc ((n - (i + M) + (M - 1)) div M)"
proof (cases "n - i < M")
  case True
  then have z: "n - (i + M) = 0" by simp
  have "(n - i + (M - 1)) div M = 1"
    using True assms by (intro div_nat_eqI) auto
  with z assms show ?thesis by simp
next
  case False
  then have "n - i + (M - 1) = (n - (i + M) + (M - 1)) + M" by simp
  then show ?thesis using assms(1) by (simp only: div_add_self2)
qed

lemma split_loop_eq:
  "split_loop buf i acc =
     acc @ map (\<lambda>k. slice buf (i + k * MAX_CHUNK_SIZE) (i + k * MAX_CHUNK_SIZE + MAX_CHUNK_SIZE))
             [0 ..< (length buf - i + (MAX_CHUNK_SIZE - 1)) div MAX_CHUNK_SIZE]"
proof (induction buf i acc rule: split_loop.induct)
  case (1 buf i acc)
  let ?M = MAX_CHUNK_SIZE
  have M: "0 < ?M" by (simp add: MAX_CHUNK_SIZE_def)
  show ?case
  proof (cases "i < length buf")
    case True
    have c: "(length buf - i + (?M - 1)) div ?M = Suc ((length buf - (i + ?M) + (?M - 1)) div ?M)"
      using M True by (rule count_step)
    have sh: "\<And>k. i + Suc k * ?M = i + ?M + k * ?M" by simp
    have "split_loop buf i acc = split_loop buf (i + ?M) (acc @ [slice buf i (i + ?M)])"
      using True by (subst split_loop.simps) simp
    also have "\<dots> = (acc @ [slice buf i (i + ?M)]) @
        map (\<lambda>k. slice buf (i + ?M + k * ?M) (i + ?M + k * ?M + ?M))
          [0 ..< (length buf - (i + ?M) + (?M - 1)) div ?M]"
      using 1 True by simp
    also have "\<dots> = acc @ map (\<lambda>k. slice buf (i + k * ?M) (i + k * ?M + ?M))
          [0 ..< Suc ((length buf - (i + ?M) + (?M - 1)) div ?M)]"
      by (simp only: map_upt_Suc sh) simp
    finally show ?thesis by (simp only: c)
  next
    case False
    then have "(length buf - i + (?M - 1)) div ?M = 0" using M by simp
    moreover have "split_loop buf i acc = acc"
      using False by (subst split_loop.simps) simp
    ultimately show ?thesis by simp
  qed
qed

lemma chunks_eq:
  "split_loop buf 0 [] =
     map (\<lambda>k. take MAX_CHUNK_SIZE (drop (k * MAX_CHUNK_SIZE) buf)) [0 ..< chunk_total (length buf)]"
  by (simp add: split_loop_eq slice_def chunk_total_def)

lemma chunk_total_covers:
  "n \<le> chunk_total n * MAX_CHUNK_SIZE"
proof -
  let ?M = MAX_CHUNK_SIZE
  have M: "0 < ?M" by (simp add: MAX_CHUNK_SIZE_def)
  have "n + (?M - 1) < ?M + ((n + (?M - 1)) div ?M) * ?M"
    using M by (rule dividend_less_div_times)
  then show ?thesis using M by (simp add: chunk_total_def)
qed

lemma chunk_total_pos: "0 < n \<Longrightarrow> 0 < chunk_total n"
  by (simp add: chunk_total_def MAX_CHUNK_SIZE_def div_greater_zero_iff)

lemma chunk_total_tight: "0 < n \<Longrightarrow> (chunk_total n - 1) * MAX_CHUNK_SIZE < n"
proof -
  let ?M = MAX_CHUNK_SIZE
  assume n: "0 < n"
  have M: "0 < ?M" by (simp add: MAX_CHUNK_SIZE_def)
  have "((n + (?M - 1)) div ?M) * ?M \<le> n + (?M - 1)" by simp
  then have "chunk_total n * ?M \<le> n + (?M - 1)" by (simp add: chunk_total_def)
  moreover have "chunk_total n * ?M = (chunk_total n - 1) * ?M + ?M"
    using chunk_total_pos [OF n] by (cases "chunk_total n") simp_all
  ultimately show ?thesis using M by linarith
qed

lemma concat_chunks_take:
  "concat (map (\<lambda>k. take M (drop (k * M) buf)) [0 ..< n]) = take (n * M) buf"
proof (induction n)
  case 0
  show ?case by simp
next
  case (Suc n)
  have "take (n * M + M) buf = take (n * M) buf @ take M (drop (n * M) buf)"
    by (rule take_add)
  with Suc show ?case by (simp add: add.commute)
qed

lemma concat_split_loop: "concat (split_loop buf 0 []) = buf"
  using chunk_total_covers [of "length buf"]
  by (simp add: chunks_eq concat_chunks_take)

lemma split_loop_chunk_length: "c \<in> set (split_loop buf 0 []) \<Longrightarrow> length c \<le> MAX_CHUNK_SIZE"
  by (auto simp: chunks_eq)

lemma length_split_loop: "length (split_loop buf 0 []) = chunk_total (length buf)"
  by (simp add: chunks_eq)

lemma encrypt_chunks_Inr:
  "encrypt_chunks L pub rnd i cs = Inr es \<Longrightarrow>
     length es = length cs \<and>
     (\<forall>k < length cs. \<exists>c. publicEncrypt L pub (rnd (i + k)) (cs ! k) = Inr c \<and>
                              es ! k = base64_encode L c)"
proof (induction cs arbitrary: i es)
  case Nil
  then show ?case by simp
next
  case (Cons a cs)
  from Cons.prems obtain c es' where
    c: "publicEncrypt L pub (rnd i) a = Inr c" and
    r: "encrypt_chunks L pub rnd (Suc i) cs = Inr es'" and
    es: "es = base64_encode L c # es'"
    by (auto split: sum.splits)
  from Cons.IH [OF r] have
    l: "length es' = length cs" and
    k: "\<forall>k < length cs. \<exists>c. publicEncrypt L pub (rnd (Suc i + k)) (cs ! k) = Inr c \<and>
                              es' ! k = base64_encode L c"
    by auto
  show ?case
  proof (intro conjI allI impI)
    show "length es = length (a # cs)" using l es by simp
  next
    fix k assume "k < length (a # cs)"
    then show "\<exists>c. publicEncrypt L pub (rnd (i + k)) ((a # cs) ! k) = Inr c \<and>
                  es ! k = base64_encode L c"
      using c es k by (cases k) auto
  qed
qed

lemma chunks_round_trip:
  assumes "base64_ok L" and "valid_key_pair L pub priv"
    and "\<forall>c \<in> set cs. length c \<le> MAX_CHUNK_SIZE"
  shows "\<exists>es. encrypt_chunks L pub rnd i cs = Inr es \<and> length es = length cs \<and>
              (\<forall>e \<in> set es. CHR '':'' \<notin> set e) \<and>
              decrypt_chunks L priv j es = Inr cs"
  using assms(3)
proof (induction cs arbitrary: i j)
  case Nil
  show ?case by simp
next
  case (Cons a cs)
  from Cons.prems have a: "length a \<le> MAX_CHUNK_SIZE" by simp
  from assms(2) a obtain c where
    e: "publicEncrypt L pub (rnd i) a = Inr c" and d: "privateDecrypt L priv c = Inr a"
    unfolding valid_key_pair_def by blast
  from Cons.prems have "\<forall>c \<in> set cs. length c \<le> MAX_CHUNK_SIZE" by simp
  from Cons.IH [OF this, of "Suc i" "Suc j"] obtain es where
    es: "encrypt_chunks L pub rnd (Suc i) cs = Inr es" "length es = length cs"
        "\<forall>e \<in> set es. CHR '':'' \<notin> set e" "decrypt_chunks L priv (Suc j) es = Inr cs"
    by blast
  have b: "base64_decode L (base64_encode L c) = c" "CHR '':'' \<notin> set (base64_encode L c)"
    using assms(1) unfolding base64_ok_def by auto
  show ?case
    using e d es b by simp
qed

lemma split_token:
  assumes "es \<noteq> []" and "\<forall>e \<in> set es. CHR '':'' \<notin> set e"
  shows "split CHR '':'' (show_nat n @ CHR '':'' # join CHR '':'' es) = show_nat n # es"
  using assms by (simp add: split_append_sep show_nat_no_colon split_join)

lemma hd_split_token: "hd (split CHR '':'' (show_nat n @ CHR '':'' # rest)) = show_nat n"
  by (simp add: split_append_sep show_nat_no_colon)

section \<open>Decryption of a token\<close>

lemma decrypt_chunks_first_failure:
  assumes "i < length es"
    and "privateDecrypt L priv (base64_decode L (es ! i)) = Inl e"
  shows "\<exists>j \<le> i. decrypt_chunks L priv index es = Inl (chunk_failed (index + j)) \<and>
           (\<exists>e'. privateDecrypt L priv (base64_decode L (es ! j)) = Inl e') \<and>
           (\<forall>k < j. \<exists>d. privateDecrypt L priv (base64_decode L (es ! k)) = Inr d)"
  using assms
proof (induction es arbitrary: i index)
  case Nil
  then show ?case by simp
next
  case (Cons a es)
  show ?case
  proof (cases "privateDecrypt L priv (base64_decode L a)")
    case (Inl e0)
    then have "decrypt_chunks L priv index (a # es) = Inl (chunk_failed (index + 0))" by simp
    moreover have "\<exists>e'. privateDecrypt L priv (base64_decode L ((a # es) ! 0)) = Inl e'"
      using Inl by simp
    ultimately show ?thesis by blast
  next
    case (Inr d0)
    with Cons.prems obtain i' where i: "i = Suc i'" by (cases i) auto
    with Cons.prems have p: "i' < length es"
      "privateDecrypt L priv (base64_decode L (es ! i')) = Inl e" by auto
    from Cons.IH [OF p, of "Suc index"] obtain j where
      j: "j \<le> i'" "decrypt_chunks L priv (Suc index) es = Inl (chunk_failed (Suc index + j))"
         "\<exists>e'. privateDecrypt L priv (base64_decode L (es ! j)) = Inl e'"
         "\<forall>k < j. \<exists>d. privateDecrypt L priv (base64_decode L (es ! k)) = Inr d"
      by blast
    have 1: "Suc j \<le> i" using j(1) i by simp
    have 2: "decrypt_chunks L priv index (a # es) = Inl (chunk_failed (index + Suc j))"
      using Inr j(2) by simp
    have 3: "\<exists>e'. privateDecrypt L priv (base64_decode L ((a # es) ! Suc j)) = Inl e'"
      using j(3) by simp
    have 4: "\<forall>k < Suc j. \<exists>d. privateDecrypt L priv (base64_decode L ((a # es) ! k)) = Inr d"
    proof (intro allI impI)
      fix k assume "k < Suc j"
      then show "\<exists>d. privateDecrypt L priv (base64_decode L ((a # es) ! k)) = Inr d"
        using Inr j(4) by (cases k) auto
    qed
    from 1 2 3 4 show ?thesis by blast
  qed
qed

lemma split_colon_length: "length (split CHR '':'' s) < 2 \<longleftrightarrow> CHR '':'' \<notin> set s"
  by (simp add: split_length count_list_0_iff)

lemma decrypt_well_formed:
  assumes "privateKey \<noteq> []"
    and "chunkCount s = Some n" and "1 \<le> n" and "n = int (length (encryptedChunks s))"
  shows "decrypt L s privateKey =
           (case decrypt_chunks L privateKey 0 (encryptedChunks s) of
              Inl e \<Rightarrow> Inl e
            | Inr decryptedChunks \<Rightarrow> Inr (utf8_decode L (concat decryptedChunks)))"
proof -
  have s: "s \<noteq> []"
    using assms(2) by (auto simp: chunkCount_def parseInt_def)
  have l: "\<not> length (split CHR '':'' s) < 2"
    using assms(3,4) by (simp add: encryptedChunks_def)
  have c: "n = int (length (split CHR '':'' s)) - 1"
    using assms(4) l by (simp add: encryptedChunks_def)
  show ?thesis
    using assms(1,2,3) s l c
    by (simp add: decrypt_def chunkCount_def encryptedChunks_def Let_def)
qed

lemma decrypt_malformed:
  assumes "privateKey \<noteq> []"
    and "chunkCount s = None \<or>
         (\<exists>n. chunkCount s = Some n \<and> (n < 1 \<or> n \<noteq> int (length (encryptedChunks s))))"
  shows "decrypt L s privateKey =
           Inl (if s = [] then Error ''Encrypted data must be a non-empty string''
                else if CHR '':'' \<notin> set s then invalid_format
                else invalid_chunk_count)"
proof (cases "s = []")
  case True
  then show ?thesis by (simp add: decrypt_def)
next
  case False
  show ?thesis
  proof (cases "CHR '':'' \<in> set s")
    case False
    with \<open>s \<noteq> []\<close> assms(1) show ?thesis
      by (simp add: decrypt_def split_colon_length)
  next
    case True
    then have l: "\<not> length (split CHR '':'' s) < 2" by (simp add: split_colon_length)
    then have c: "int (length (encryptedChunks s)) = int (length (split CHR '':'' s)) - 1"
      by (simp add: encryptedChunks_def)
    from assms(2) show ?thesis
    proof
      assume "chunkCount s = None"
      with \<open>s \<noteq> []\<close> assms(1) True l show ?thesis
        by (simp add: decrypt_def chunkCount_def)
    next
      assume "\<exists>n. chunkCount s = Some n \<and> (n < 1 \<or> n \<noteq> int (length (encryptedChunks s)))"
      then obtain n where n: "chunkCount s = Some n"
        "n < 1 \<or> n \<noteq> int (length (split CHR '':'' s)) - 1"
        using c by auto
      with \<open>s \<noteq> []\<close> assms(1) True l show ?thesis
        by (auto simp: decrypt_def chunkCount_def)
    qed
  qed
qed

lemma decrypt_chunks_Inl:
  "decrypt_chunks L priv index es = Inl e \<Longrightarrow>
     \<exists>j < length es. e = chunk_failed (index + j)"
proof (induction es arbitrary: index)
  case Nil
  then show ?case by simp
next
  case (Cons a es)
  show ?case
  proof (cases "privateDecrypt L priv (base64_decode L a)")
    case (Inl e0)
    with Cons.prems have "e = chunk_failed (index + 0)" by simp
    then show ?thesis by (intro exI [of _ 0]) simp
  next
    case (Inr d0)
    with Cons.prems have "decrypt_chunks L priv (Suc index) es = Inl e"
      by (simp split: sum.splits)
    from Cons.IH [OF this] obtain j where "j < length es" "e = chunk_failed (Suc index + j)"
      by blast
    then show ?thesis by (intro exI [of _ "Suc j"]) simp
  qed
qed

section \<open>The file system and the handler\<close>

lemma mkdirSync_Inr:
  assumes "mkdirSync fs p = Inr fs'"
  shows "fs' = (\<lambda>q. if q \<noteq> [] \<and> prefix q p \<and> fs q = None then Some Dir else fs q)"
proof -
  have "\<not> list_ex (is_file fs) (tl (prefixes (butlast p)))"
    using assms unfolding mkdirSync_def by (metis Inl_Inr_False)
  moreover have "\<not> is_file fs p"
    using assms unfolding mkdirSync_def by (metis Inl_Inr_False)
  ultimately show ?thesis
    using assms unfolding mkdirSync_def by (simp only: if_False sum.inject)
qed

lemma ensureUserFolder_cases:
  assumes "ensureUserFolder cfg fs email = Inr (p, fs1)"
  shows "p = path_join (DATA_DIR cfg) email \<and>
         ((existsSync fs p \<and> fs1 = fs) \<or> (\<not> existsSync fs p \<and> mkdirSync fs p = Inr fs1))"
proof (cases "existsSync fs (path_join (DATA_DIR cfg) email)")
  case True
  with assms show ?thesis by (simp add: ensureUserFolder_def)
next
  case False
  with assms show ?thesis
    by (cases "mkdirSync fs (path_join (DATA_DIR cfg) email)") (simp_all add: ensureUserFolder_def)
qed

lemma ensureUserFolder_Inr:
  assumes "ensureUserFolder cfg fs email = Inr (p, fs1)"
  shows "p = path_join (DATA_DIR cfg) email"
    and "existsSync fs1 p"
    and "fs1 q = fs q \<or> (fs q = None \<and> fs1 q = Some Dir \<and> prefix q p)"
proof -
  from ensureUserFolder_cases [OF assms] show "p = path_join (DATA_DIR cfg) email" by simp
  from ensureUserFolder_cases [OF assms] consider
    (old) "existsSync fs p" "fs1 = fs" | (new) "\<not> existsSync fs p" "mkdirSync fs p = Inr fs1"
    by blast
  then show "existsSync fs1 p"
  proof cases
    case old
    then show ?thesis by simp
  next
    case new
    then have "p \<noteq> []" by (simp add: existsSync_def)
    then show ?thesis
      unfolding mkdirSync_Inr [OF new(2)] by (simp add: existsSync_def)
  qed
  from ensureUserFolder_cases [OF assms] consider
    (old) "existsSync fs p" "fs1 = fs" | (new) "\<not> existsSync fs p" "mkdirSync fs p = Inr fs1"
    by blast
  then show "fs1 q = fs q \<or> (fs q = None \<and> fs1 q = Some Dir \<and> prefix q p)"
  proof cases
    case old
    then show ?thesis by simp
  next
    case new
    show ?thesis unfolding mkdirSync_Inr [OF new(2)] by simp
  qed
qed

lemma ensureUserFolder_files:
  assumes "ensureUserFolder cfg fs email = Inr (p, fs1)"
  shows "fs1 q = Some (File c) \<longleftrightarrow> fs q = Some (File c)"
  using ensureUserFolder_Inr(3) [OF assms, of q] by auto

lemma path_join_plain:
  "CHR ''/'' \<notin> set name \<Longrightarrow> name \<noteq> [] \<Longrightarrow> name \<noteq> ''.'' \<Longrightarrow> name \<noteq> ''..'' \<Longrightarrow>
     path_join base name = base @ [name]"
  by (simp add: path_join_def split_no_sep normalize_segment_def)

lemma category_path:
  "messageType \<in> set category_types \<Longrightarrow>
     path_join userFolder (messageType @ ''.txt'') = userFolder @ [messageType @ ''.txt'']"
  by (auto simp: category_types_def path_join_plain)

lemma logs_path: "path_join userFolder ''logs.txt'' = userFolder @ [''logs.txt'']"
  by (simp add: path_join_plain)

lemma writeFileSync_Inr:
  "writeFileSync fs p content = Inr fs' \<Longrightarrow> fs' = fs(p \<mapsto> File content)"
  by (auto simp: writeFileSync_def split: option.splits)

lemma appendFileSync_Inr:
  "appendFileSync fs p content = Inr fs' \<Longrightarrow>
     fs' = fs(p \<mapsto> File ((case fs p of Some (File old) \<Rightarrow> old | _ \<Rightarrow> []) @ content))"
  by (auto simp: appendFileSync_def split: option.splits)


lemma ensure_folder_of_string:
  "ensure_folder_of cfg fs (JString email) = ensureUserFolder cfg fs email"
  by (simp add: ensure_folder_of_def)


lemma optional_call_string:
  "optional_call method name (Some (JString s)) = Inr (Some (method s))"
  by (simp add: optional_call_def)






lemma api_post_authorized:
  assumes "key req = Some (JString (API_KEY cfg))"
  shows "api_post cfg L rnd now fs req =
           ((case fst (process_message cfg L rnd now fs req) of
               Some e \<Rightarrow> Response 500 (ErrorMessageJson ''Internal server error'' e)
             | None \<Rightarrow> Response 200 (SuccessJson True ''Message received'')),
            snd (process_message cfg L rnd now fs req))"
proof -
  obtain r fs' where p: "process_message cfg L rnd now fs req = (r, fs')"
    by (cases "process_message cfg L rnd now fs req")
  with assms show ?thesis by (cases r) (simp_all add: api_post_def)
qed




lemma process_message_typed:
  assumes ident: "or_else (Email req) (JString ''Unknown'') = JString email"
    and ens: "ensureUserFolder cfg fs email = Inr (userFolder, fs1)"
    and ty: "Type req = Some (JString t)"
    and ts: "template L (or_else (Time req) (JString now)) = Inr timestamp"
  shows "process_message cfg L rnd now fs req =
           (if toLowerCase L t \<in> set category_types
            then save_category cfg L rnd fs1 userFolder (toLowerCase L t) req
            else if toLowerCase L t \<in> set log_types
            then append_log L fs1 userFolder timestamp
                   (or_default (Some (toUpperCase L t)) ''MESSAGE'') (toLowerCase L t) req
            else report_only L fs1 req)"
proof -
  have e: "ensure_folder_of cfg fs (or_else (Email req) (JString ''Unknown'')) = Inr (userFolder, fs1)"
    using ident ens by (simp add: ensure_folder_of_string)
  show ?thesis
    using e ty ts by (simp add: process_message_def optional_call_string)
qed

lemma save_category_stored:
  assumes "messageType \<in> set category_types"
    and "Data req = Some d"
    and "encrypt L (Some (stringify L d)) (PUBLIC_KEY cfg) rnd = Inr token"
    and "writable fs1 (userFolder @ [messageType @ ''.txt'']) = None"
  shows "save_category cfg L rnd fs1 userFolder messageType req =
           (None, fs1(userFolder @ [messageType @ ''.txt''] \<mapsto> File token))"
  using assms by (simp add: save_category_def Let_def category_path writeFileSync_def)

lemma save_category_no_data:
  assumes "Data req = None"
  shows "save_category cfg L rnd fs1 userFolder messageType req =
           (Some (Error ''Text must be a non-empty string''), fs1)"
  using assms by (simp add: save_category_def Let_def encrypt_def)

lemma append_log_stored:
  assumes "messageType = ''opened'' \<or> messageType = ''input''"
    and "template L (or_else (Field' req) (JString ''N/A'')) = Inr field"
    and "template L (or_else (Message req) (JString ''N/A'')) = Inr message"
    and "writable fs1 (userFolder @ [''logs.txt'']) = None"
  shows "append_log L fs1 userFolder timestamp typeUpper messageType req =
           (None, fs1(userFolder @ [''logs.txt''] \<mapsto>
              File ((case fs1 (userFolder @ [''logs.txt'']) of Some (File old) \<Rightarrow> old | _ \<Rightarrow> []) @
                    ''['' @ timestamp @ ''] '' @ typeUpper @ LF @
                    ''  Field: '' @ field @ LF @
                    ''  Message: '' @ message @ LF @
                    ''---'' @ LF @ LF)))"
proof -
  have "log_entry L timestamp typeUpper messageType req =
          Inr (''['' @ timestamp @ ''] '' @ typeUpper @ LF @
               ''  Field: '' @ field @ LF @ ''  Message: '' @ message @ LF @ ''---'' @ LF @ LF)"
    using assms(1,2,3) by (simp add: log_entry_def)
  then show ?thesis
    using assms(4) by (simp add: append_log_def Let_def logs_path appendFileSync_def)
qed

lemma category_file_kept:
  assumes ens: "ensureUserFolder cfg fs email = Inr (userFolder, fs1)"
  shows "fs1 (userFolder @ [name]) = fs (userFolder @ [name])"
proof -
  have "\<not> prefix (userFolder @ [name]) userFolder"
    by (auto dest: prefix_length_le)
  with ensureUserFolder_Inr(3) [OF ens, of "userFolder @ [name]"] show ?thesis by auto
qed

lemma serve_Cons:
  "serve cfg L fs (r # rs) =
     (fst (api_post cfg L (seeds r) (clock r) fs (payload r)) #
        fst (serve cfg L (snd (api_post cfg L (seeds r) (clock r) fs (payload r))) rs),
      snd (serve cfg L (snd (api_post cfg L (seeds r) (clock r) fs (payload r))) rs))"
  by (simp split: prod.splits)

lemma serve_length: "length (fst (serve cfg L fs rs)) = length rs"
proof (induction rs arbitrary: fs)
  case Nil
  show ?case by simp
next
  case (Cons r rs)
  show ?case by (simp only: serve_Cons fst_conv list.size Cons.IH)
qed

lemma serve_append:
  "serve cfg L fs (rs1 @ rs2) =
     (fst (serve cfg L fs rs1) @ fst (serve cfg L (snd (serve cfg L fs rs1)) rs2),
      snd (serve cfg L (snd (serve cfg L fs rs1)) rs2))"
proof (induction rs1 arbitrary: fs)
  case Nil
  show ?case by simp
next
  case (Cons r rs1)
  show ?case
    by (simp only: append_Cons serve_Cons Cons.IH fst_conv snd_conv)
qed

section \<open>The sample platform meets what is asked of it\<close>

lemma sample_utf8: "utf8_decode sample_platform (utf8_encode sample_platform s) = s"
  by (simp add: sample_platform_def unat_of_nat o_def map_idI)

lemma sample_utf8_nonempty: "utf8_encode sample_platform s = [] \<longleftrightarrow> s = []"
  by (simp add: sample_platform_def)

lemma sample_nibbles: "(of_nat (unat x div 16 * 16 + unat x mod 16) :: byte) = x"
  by simp

lemma sample_decode_encode: "sample_decode64 (sample_encode64 b) = b"
proof (induction b)
  case Nil
  show ?case by (simp add: sample_encode64_def)
next
  case (Cons x b)
  have h: "of_char (char_of (65 + unat x div 16) :: char) = (65 + unat x div 16 :: nat)"
  proof -
    have "unat x < 256" using unsigned_less [of x, where ?'a = nat] by simp
    then have "65 + unat x div 16 < 256" by simp
    then show ?thesis by simp
  qed
  have l: "of_char (char_of (65 + unat x mod 16) :: char) = (65 + unat x mod 16 :: nat)"
  proof -
    have "65 + unat x mod 16 < 256" by (simp add: less_imp_diff_less)
    then show ?thesis by simp
  qed
  have "sample_encode64 (x # b) =
          char_of (65 + unat x div 16) # char_of (65 + unat x mod 16) # sample_encode64 b"
    by (simp add: sample_encode64_def)
  then show ?case using Cons h l by (simp del: of_nat_add of_nat_mult add: sample_nibbles)
qed

lemma sample_letter:
  assumes "k < 16"
  shows "char_of (65 + k :: nat) \<noteq> CHR '':''"
proof
  assume a: "char_of (65 + k) = CHR '':''"
  have "65 + k < 256" using assms by simp
  then have "(of_char (char_of (65 + k) :: char) :: nat) = 65 + k" by simp
  with a show False by simp
qed

lemma sample_encode_no_colon: "CHR '':'' \<notin> set (sample_encode64 b)"
proof (induction b)
  case Nil
  show ?case by (simp add: sample_encode64_def)
next
  case (Cons x b)
  have "unat x < 256" using unsigned_less [of x, where ?'a = nat] by simp
  then have d: "unat x div 16 < 16" by simp
  have m: "unat x mod 16 < 16" by simp
  have "sample_encode64 (x # b) =
          char_of (65 + unat x div 16) # char_of (65 + unat x mod 16) # sample_encode64 b"
    by (simp add: sample_encode64_def)
  then show ?case
    using Cons sample_letter [OF d] sample_letter [OF m] by (simp del: char_of_def)
qed

lemma sample_base64_ok: "base64_ok sample_platform"
  by (simp add: base64_ok_def sample_platform_def sample_decode_encode sample_encode_no_colon)

lemma sample_valid_key_pair: "valid_key_pair sample_platform ''PUB'' ''KEY''"
  by (simp add: valid_key_pair_def sample_platform_def sample_publicEncrypt_def
      sample_privateDecrypt_def)

lemma sample_user_folder:
  "ensureUserFolder sample_config sample_fs ''a@b.c'' =
     Inr ([''srv'', ''data'', ''a@b.c''],
          (\<lambda>q. if q \<noteq> [] \<and> prefix q [''srv'', ''data'', ''a@b.c''] \<and> sample_fs q = None
               then Some Dir else sample_fs q))"
proof -
  have p: "path_join (DATA_DIR sample_config) ''a@b.c'' = [''srv'', ''data'', ''a@b.c'']"
    by (simp add: path_join_plain sample_config_def)
  have e: "\<not> existsSync sample_fs [''srv'', ''data'', ''a@b.c'']"
    by (simp add: existsSync_def sample_fs_def)
  have a: "\<not> list_ex (is_file sample_fs) (tl (prefixes (butlast [''srv'', ''data'', ''a@b.c''])))"
    by (simp add: is_file_def sample_fs_def)
  have b: "\<not> is_file sample_fs [''srv'', ''data'', ''a@b.c'']"
    by (simp add: is_file_def sample_fs_def)
  have m: "mkdirSync sample_fs [''srv'', ''data'', ''a@b.c''] =
     Inr (\<lambda>q. if q \<noteq> [] \<and> prefix q [''srv'', ''data'', ''a@b.c''] \<and> sample_fs q = None
               then Some Dir else sample_fs q)"
    by (simp only: mkdirSync_def a b if_False)
  show ?thesis
    by (simp add: ensureUserFolder_def Let_def p e m)
qed

lemma sample_user_folder_named:
  "ensureUserFolder sample_config sample_fs ''a@b.c'' = Inr ([''srv'', ''data'', ''a@b.c''], sample_fs_user)"
  unfolding sample_fs_user_def by (rule sample_user_folder)

lemma sample_cookies:
  "key (sample_body\<lparr>Type := Some (JString ''Cookies''), Data := Some (JString ''x'')\<rparr>) =
     Some (JString (API_KEY sample_config)) \<and>
   Type (sample_body\<lparr>Type := Some (JString ''Cookies''), Data := Some (JString ''x'')\<rparr>) =
     Some (JString ''Cookies'') \<and>
   or_else (Email (sample_body\<lparr>Type := Some (JString ''Cookies''), Data := Some (JString ''x'')\<rparr>))
     (JString ''Unknown'') = JString ''a@b.c'' \<and>
   template sample_platform
     (or_else (Time (sample_body\<lparr>Type := Some (JString ''Cookies''), Data := Some (JString ''x'')\<rparr>))
        (JString ''now'')) = Inr ''noon'' \<and>
   toLowerCase sample_platform ''Cookies'' = ''cookies'' \<and>
   ''cookies'' \<in> set category_types \<and>
   Data (sample_body\<lparr>Type := Some (JString ''Cookies''), Data := Some (JString ''x'')\<rparr>) =
     Some (JString ''x'') \<and>
   encrypt sample_platform (Some (stringify sample_platform (JString ''x''))) (PUBLIC_KEY sample_config)
     sample_rnd = Inr ''1:ADAHCCHICC'' \<and>
   writable sample_fs_user ([''srv'', ''data'', ''a@b.c''] @ [''cookies'' @ ''.txt'']) = None"
  by code_simp

lemma sample_opened:
  "key (sample_body\<lparr>Type := Some (JString ''Opened'')\<rparr>) = Some (JString (API_KEY sample_config)) \<and>
   Type (sample_body\<lparr>Type := Some (JString ''Opened'')\<rparr>) = Some (JString ''Opened'') \<and>
   or_else (Email (sample_body\<lparr>Type := Some (JString ''Opened'')\<rparr>)) (JString ''Unknown'') =
     JString ''a@b.c'' \<and>
   template sample_platform
     (or_else (Time (sample_body\<lparr>Type := Some (JString ''Opened'')\<rparr>)) (JString ''now'')) =
     Inr ''noon'' \<and>
   toLowerCase sample_platform ''Opened'' = ''opened'' \<and>
   toUpperCase sample_platform ''Opened'' = ''OPENED'' \<and>
   template sample_platform
     (or_else (Field' (sample_body\<lparr>Type := Some (JString ''Opened'')\<rparr>)) (JString ''N/A'')) = Inr ''q'' \<and>
   template sample_platform
     (or_else (Message (sample_body\<lparr>Type := Some (JString ''Opened'')\<rparr>)) (JString ''N/A'')) =
     Inr ''hi'' \<and>
   writable sample_fs_user ([''srv'', ''data'', ''a@b.c''] @ [''logs.txt'']) = None \<and>
   sample_fs_user ([''srv'', ''data'', ''a@b.c''] @ [''logs.txt'']) = None"
  by code_simp



lemma sample_run_answers:
  "fst (serve sample_config sample_platform sample_fs sample_run) =
     [Response 500 (ErrorMessageJson ''Internal server error''
                      (Error ''Text must be a non-empty string'')),
      Response 401 (ErrorJson ''Unauthorized''),
      Response 200 (SuccessJson True ''Message received'')] \<and>
   key (sample_body\<lparr>Type := Some (JString ''history'')\<rparr>) = Some (JString (API_KEY sample_config)) \<and>
   fst (process_message sample_config sample_platform sample_rnd ''now'' sample_fs
          (sample_body\<lparr>Type := Some (JString ''history'')\<rparr>)) =
     Some (Error ''Text must be a non-empty string'')"
  by code_simp


section \<open>The chunk count\<close>

lemma chunk_total_ceiling: "int (chunk_total n) = \<lceil>real n / real MAX_CHUNK_SIZE\<rceil>"
proof (rule sym, rule ceiling_unique)
  have M: "0 < real MAX_CHUNK_SIZE" by (simp add: MAX_CHUNK_SIZE_def)
  have "real n \<le> real (chunk_total n * MAX_CHUNK_SIZE)"
    using chunk_total_covers [of n] by (simp only: of_nat_le_iff)
  then have "real n \<le> real (chunk_total n) * real MAX_CHUNK_SIZE" by simp
  then show "real n / real MAX_CHUNK_SIZE \<le> of_int (int (chunk_total n))"
    using M by (simp add: pos_divide_le_eq)
  show "of_int (int (chunk_total n)) - 1 < real n / real MAX_CHUNK_SIZE"
  proof (cases "n = 0")
    case True
    then show ?thesis by (simp add: chunk_total_def MAX_CHUNK_SIZE_def)
  next
    case False
    then have n: "0 < n" by simp
    have "real ((chunk_total n - 1) * MAX_CHUNK_SIZE) < real n"
      using chunk_total_tight [OF n] by (simp only: of_nat_less_iff)
    moreover have "real (chunk_total n - 1) = real (chunk_total n) - 1"
      using chunk_total_pos [OF n] by (simp add: of_nat_diff)
    ultimately have "(real (chunk_total n) - 1) * real MAX_CHUNK_SIZE < real n" by simp
    then show ?thesis using M by (simp add: pos_less_divide_eq)
  qed
qed

lemma encrypt_Inr:
  assumes "encrypt L (Some t) publicKey rnd = Inr token"
  shows "t \<noteq> [] \<and> publicKey \<noteq> [] \<and>
         (\<exists>es. encrypt_chunks L publicKey rnd 0 (split_loop (utf8_encode L t) 0 []) = Inr es \<and>
               token = show_nat (length es) @ CHR '':'' # join CHR '':'' es)"
  using assms by (auto simp: encrypt_def Let_def split: if_splits sum.splits)

section \<open>Start-up\<close>














section \<open>Claims about the chunked cipher\<close>

text \<open>
  C1 (round trip). Let \<open>p\<close> be a plaintext whose UTF-8 encoding has at least one byte
  and decodes back to \<open>p\<close>, on a platform whose base64 text decodes to the bytes it was
  made from, and let the key pair be valid. Then \<open>encrypt\<close> returns a token, whatever
  the seeds of the padding, and \<open>decrypt\<close> of that token with the private key returns
  exactly \<open>p\<close>. No bound on the length of \<open>p\<close> is needed, so the statement covers the
  plaintexts of up to 50 000 bytes.
\<close>

theorem round_trip:
  assumes t: "p \<noteq> []" and buf: "0 < length (utf8_encode L p)"
    and utf8: "utf8_decode L (utf8_encode L p) = p"
    and b64: "base64_ok L" and keys: "valid_key_pair L pub priv"
  shows "\<exists>token. encrypt L (Some p) pub rnd = Inr token \<and> decrypt L token priv = Inr p"
proof -
  let ?buf = "utf8_encode L p"
  let ?cs = "split_loop ?buf 0 []"
  have len: "\<forall>c \<in> set ?cs. length c \<le> MAX_CHUNK_SIZE"
    using split_loop_chunk_length by blast
  from chunks_round_trip [OF b64 keys len, of rnd 0 0] obtain es where
    es: "encrypt_chunks L pub rnd 0 ?cs = Inr es" "length es = length ?cs"
        "\<forall>e \<in> set es. CHR '':'' \<notin> set e" "decrypt_chunks L priv 0 es = Inr ?cs"
    by blast
  have n: "0 < length es"
    using es(2) buf chunk_total_pos [of "length ?buf"] by (simp add: length_split_loop)
  then have ne: "es \<noteq> []" by auto
  let ?token = "show_nat (length es) @ CHR '':'' # join CHR '':'' es"
  have pub: "pub \<noteq> []" and priv: "priv \<noteq> []"
    using keys unfolding valid_key_pair_def by auto
  have enc: "encrypt L (Some p) pub rnd = Inr ?token"
    using t pub es(1) by (simp add: encrypt_def)
  have parts: "split CHR '':'' ?token = show_nat (length es) # es"
    using ne es(3) by (rule split_token)
  have dec: "decrypt L ?token priv = Inr (utf8_decode L (concat ?cs))"
    using priv n es(4) by (simp add: decrypt_def parts parseInt_show_nat)
  show ?thesis
    using enc dec utf8 by (simp add: concat_split_loop)
qed

theorem round_trip_witness:
  "replicate 400 CHR ''a'' \<noteq> [] \<and>
   0 < length (utf8_encode sample_platform (replicate 400 CHR ''a'')) \<and>
   utf8_decode sample_platform (utf8_encode sample_platform (replicate 400 CHR ''a'')) =
     replicate 400 CHR ''a'' \<and>
   base64_ok sample_platform \<and> valid_key_pair sample_platform ''PUB'' ''KEY'' \<and>
   (\<exists>token. encrypt sample_platform (Some (replicate 400 CHR ''a'')) ''PUB'' sample_rnd = Inr token \<and>
            decrypt sample_platform token ''KEY'' = Inr (replicate 400 CHR ''a''))"
proof -
  have t: "replicate 400 CHR ''a'' \<noteq> []" by simp
  have b: "0 < length (utf8_encode sample_platform (replicate 400 CHR ''a''))"
    by (simp add: sample_platform_def)
  show ?thesis
    using round_trip [OF t b sample_utf8 sample_base64_ok sample_valid_key_pair, of sample_rnd]
      t b sample_utf8 sample_base64_ok sample_valid_key_pair
    by blast
qed

text \<open>
  C2 (chunk count). Whenever \<open>encrypt\<close> produces a token for a plaintext \<open>p\<close>, the token
  is the decimal chunk count, a colon, and the chunks joined by colons; the count, also
  as \<open>parseInt\<close> reads it back from the first field, is the ceiling of the byte length of
  \<open>p\<close> divided by \<open>MAX_CHUNK_SIZE = 190\<close>; and chunk \<open>i\<close> (from 0) is the base64 text of
  the encryption of the bytes of \<open>p\<close> from \<open>i * MAX_CHUNK_SIZE\<close> up to, not including,
  \<open>(i + 1) * MAX_CHUNK_SIZE\<close>.
\<close>

theorem chunk_count_invariant:
  assumes "encrypt L (Some p) publicKey rnd = Inr token"
  shows "\<exists>encryptedChunks.
           token = show_nat (length encryptedChunks) @ CHR '':'' # join CHR '':'' encryptedChunks \<and>
           parseInt (hd (split CHR '':'' token)) = Some (int (length encryptedChunks)) \<and>
           int (length encryptedChunks) = \<lceil>real (length (utf8_encode L p)) / real MAX_CHUNK_SIZE\<rceil> \<and>
           (\<forall>i < length encryptedChunks.
              \<exists>c. publicEncrypt L publicKey (rnd i)
                     (take MAX_CHUNK_SIZE (drop (i * MAX_CHUNK_SIZE) (utf8_encode L p))) = Inr c \<and>
                  encryptedChunks ! i = base64_encode L c)"
proof -
  let ?buf = "utf8_encode L p"
  from encrypt_Inr [OF assms] obtain es where
    es: "encrypt_chunks L publicKey rnd 0 (split_loop ?buf 0 []) = Inr es"
    and token: "token = show_nat (length es) @ CHR '':'' # join CHR '':'' es"
    by blast
  from encrypt_chunks_Inr [OF es] have
    len: "length es = chunk_total (length ?buf)" and
    each: "\<forall>k < chunk_total (length ?buf).
             \<exists>c. publicEncrypt L publicKey (rnd (0 + k)) (split_loop ?buf 0 [] ! k) = Inr c \<and>
                 es ! k = base64_encode L c"
    by (simp_all add: length_split_loop)
  have nth: "split_loop ?buf 0 [] ! k = take MAX_CHUNK_SIZE (drop (k * MAX_CHUNK_SIZE) ?buf)"
    if "k < chunk_total (length ?buf)" for k
    using that by (simp add: chunks_eq)
  have "\<forall>i < length es.
          \<exists>c. publicEncrypt L publicKey (rnd i)
                 (take MAX_CHUNK_SIZE (drop (i * MAX_CHUNK_SIZE) ?buf)) = Inr c \<and>
              es ! i = base64_encode L c"
    using each nth len by auto
  moreover have "parseInt (hd (split CHR '':'' token)) = Some (int (length es))"
    unfolding token by (simp only: hd_split_token parseInt_show_nat)
  moreover have "int (length es) = \<lceil>real (length ?buf) / real MAX_CHUNK_SIZE\<rceil>"
    unfolding len by (rule chunk_total_ceiling)
  ultimately show ?thesis using token by blast
qed

lemma sample_token:
  "encrypt sample_platform (Some ''hello world'') ''PUB'' sample_rnd =
     Inr ''1:ADAHGIGFGMGMGPCAHHGPHCGMGE''"
  by code_simp

theorem chunk_count_invariant_witness:
  "encrypt sample_platform (Some ''hello world'') ''PUB'' sample_rnd =
     Inr ''1:ADAHGIGFGMGMGPCAHHGPHCGMGE'' \<and>
   (\<exists>encryptedChunks.
      ''1:ADAHGIGFGMGMGPCAHHGPHCGMGE'' =
        show_nat (length encryptedChunks) @ CHR '':'' # join CHR '':'' encryptedChunks \<and>
      parseInt (hd (split CHR '':'' ''1:ADAHGIGFGMGMGPCAHHGPHCGMGE'')) =
        Some (int (length encryptedChunks)) \<and>
      int (length encryptedChunks) =
        \<lceil>real (length (utf8_encode sample_platform ''hello world'')) / real MAX_CHUNK_SIZE\<rceil> \<and>
      (\<forall>i < length encryptedChunks.
         \<exists>c. publicEncrypt sample_platform ''PUB'' (sample_rnd i)
                (take MAX_CHUNK_SIZE
                   (drop (i * MAX_CHUNK_SIZE) (utf8_encode sample_platform ''hello world''))) = Inr c \<and>
             encryptedChunks ! i = base64_encode sample_platform c))"
  using chunk_count_invariant [OF sample_token] sample_token by blast

text \<open>
  C3 (malformed tokens), as the code has it. The claim as stated fails: the count is read
  with \<open>parseInt\<close>, which takes the digits at the start of the field and ignores what
  follows them. The first field of the token \<open>1.5:ADAHGI\<close> is \<open>1.5\<close>, which is not a
  positive integer; it is read as 1, the number of chunk fields, so \<open>decrypt\<close> decrypts
  the chunk and returns its text.
\<close>

theorem malformed_token_counterexample:
  "hd (split CHR '':'' ''1.5:ADAHGI'') = ''1.5'' \<and>
   \<not> list_all is_digit ''1.5'' \<and>
   chunkCount ''1.5:ADAHGI'' = Some 1 \<and>
   encryptedChunks ''1.5:ADAHGI'' = [''ADAHGI''] \<and>
   decrypt sample_platform ''1.5:ADAHGI'' ''KEY'' = Inr ''h''"
  by code_simp

text \<open>
  C3, amended. Let the private key be given. \<open>decrypt\<close> splits its input at the colons
  and reads the first field with \<open>parseInt\<close>; \<open>chunkCount\<close> is the number read (white
  space and a sign before the digits are passed over, and what follows the digits is
  ignored) and \<open>encryptedChunks\<close> are the fields after the first. Whenever no number is
  read, or the number is below 1, or it differs from the number of chunk fields,
  \<open>decrypt\<close> fails: with the complaint about an empty input when the input is empty,
  with the format error when the input has no colon, and with the chunk-count error
  otherwise. The error is fixed by the input alone, so no chunk is decrypted and no
  text is returned. Whenever the number read is at least 1 and equals the number of
  chunk fields, the token passes the check: \<open>decrypt\<close> returns a text, or the error of
  a chunk whose decryption failed.
\<close>

theorem malformed_token_rejected:
  assumes "privateKey \<noteq> []"
  shows "(chunkCount encryptedData = None \<or>
          (\<exists>n. chunkCount encryptedData = Some n \<and>
               (n < 1 \<or> n \<noteq> int (length (encryptedChunks encryptedData)))) \<longrightarrow>
          decrypt L encryptedData privateKey =
            Inl (if encryptedData = [] then Error ''Encrypted data must be a non-empty string''
                 else if CHR '':'' \<notin> set encryptedData then invalid_format
                 else invalid_chunk_count)) \<and>
         (\<forall>n. chunkCount encryptedData = Some n \<and> 1 \<le> n \<and>
               n = int (length (encryptedChunks encryptedData)) \<longrightarrow>
            (\<exists>text. decrypt L encryptedData privateKey = Inr text) \<or>
            (\<exists>j < length (encryptedChunks encryptedData).
               decrypt L encryptedData privateKey = Inl (chunk_failed j)))"
proof (intro conjI impI allI)
  assume "chunkCount encryptedData = None \<or>
          (\<exists>n. chunkCount encryptedData = Some n \<and>
               (n < 1 \<or> n \<noteq> int (length (encryptedChunks encryptedData))))"
  from decrypt_malformed [OF assms this]
  show "decrypt L encryptedData privateKey =
            Inl (if encryptedData = [] then Error ''Encrypted data must be a non-empty string''
                 else if CHR '':'' \<notin> set encryptedData then invalid_format
                 else invalid_chunk_count)" .
next
  fix n
  assume w: "chunkCount encryptedData = Some n \<and> 1 \<le> n \<and>
             n = int (length (encryptedChunks encryptedData))"
  then have d: "decrypt L encryptedData privateKey =
           (case decrypt_chunks L privateKey 0 (encryptedChunks encryptedData) of
              Inl e \<Rightarrow> Inl e
            | Inr decryptedChunks \<Rightarrow> Inr (utf8_decode L (concat decryptedChunks)))"
    using decrypt_well_formed [OF assms, of encryptedData n L] by blast
  show "(\<exists>text. decrypt L encryptedData privateKey = Inr text) \<or>
        (\<exists>j < length (encryptedChunks encryptedData).
           decrypt L encryptedData privateKey = Inl (chunk_failed j))"
  proof (cases "decrypt_chunks L privateKey 0 (encryptedChunks encryptedData)")
    case (Inl e)
    from decrypt_chunks_Inl [OF this] obtain j where
      "j < length (encryptedChunks encryptedData)" "e = chunk_failed j" by auto
    with d Inl show ?thesis by auto
  next
    case (Inr ds)
    with d show ?thesis by simp
  qed
qed

lemma sample_short_token:
  "chunkCount ''2:ADAHGI'' = Some 2 \<and> encryptedChunks ''2:ADAHGI'' = [''ADAHGI''] \<and>
   CHR '':'' \<in> set ''2:ADAHGI''"
  by code_simp

theorem malformed_token_rejected_witness:
  "''KEY'' \<noteq> [] \<and> chunkCount ''2:ADAHGI'' = Some 2 \<and>
   2 \<noteq> int (length (encryptedChunks ''2:ADAHGI'')) \<and>
   decrypt sample_platform ''2:ADAHGI'' ''KEY'' = Inl invalid_chunk_count"
proof -
  have k: "''KEY'' \<noteq> []" by simp
  have m: "chunkCount ''2:ADAHGI'' = None \<or>
           (\<exists>n. chunkCount ''2:ADAHGI'' = Some n \<and>
                (n < 1 \<or> n \<noteq> int (length (encryptedChunks ''2:ADAHGI''))))"
    using sample_short_token by simp
  show ?thesis
    using malformed_token_rejected [OF k, of "''2:ADAHGI''" sample_platform, THEN conjunct1,
        rule_format, OF m] sample_short_token
    by simp
qed

text \<open>
  C4 (chunk failures). Let the private key be given and the token be well formed: its
  count is read, is at least 1 and equals the number of chunk fields. If the decryption
  of some chunk \<open>i\<close> (from 0) throws, then \<open>decrypt\<close> fails, and its error names chunk
  \<open>j + 1\<close>, where \<open>j\<close> is the first chunk whose decryption throws (so \<open>j \<le> i\<close>, and every
  chunk before \<open>j\<close> decrypts). The result is that error and no text: the chunks that
  were decrypted before are not returned.
\<close>

theorem chunk_failure_reported:
  assumes "privateKey \<noteq> []"
    and "chunkCount encryptedData = Some n" and "1 \<le> n"
    and "n = int (length (encryptedChunks encryptedData))"
    and "i < length (encryptedChunks encryptedData)"
    and "privateDecrypt L privateKey (base64_decode L (encryptedChunks encryptedData ! i)) = Inl e"
  shows "\<exists>j \<le> i.
           decrypt L encryptedData privateKey =
             Inl (Error (''Decryption failed for chunk '' @ show_nat (j + 1) @
                         ''. The private key may be incorrect or the data may be corrupted.'')) \<and>
           (\<exists>e'. privateDecrypt L privateKey
                   (base64_decode L (encryptedChunks encryptedData ! j)) = Inl e') \<and>
           (\<forall>k < j. \<exists>d. privateDecrypt L privateKey
                          (base64_decode L (encryptedChunks encryptedData ! k)) = Inr d)"
proof -
  from decrypt_chunks_first_failure [OF assms(5,6), of 0] obtain j where
    j: "j \<le> i"
       "decrypt_chunks L privateKey 0 (encryptedChunks encryptedData) = Inl (chunk_failed (0 + j))"
       "\<exists>e'. privateDecrypt L privateKey (base64_decode L (encryptedChunks encryptedData ! j)) = Inl e'"
       "\<forall>k < j. \<exists>d. privateDecrypt L privateKey
                       (base64_decode L (encryptedChunks encryptedData ! k)) = Inr d"
    by blast
  have "decrypt L encryptedData privateKey = Inl (chunk_failed j)"
    using decrypt_well_formed [OF assms(1-4), of L] j(2) by simp
  with j(1,3,4) show ?thesis unfolding chunk_failed_def by blast
qed

lemma sample_bad_token:
  "chunkCount ''2:ADAHGI:AEAHGJ'' = Some 2 \<and>
   encryptedChunks ''2:ADAHGI:AEAHGJ'' = [''ADAHGI'', ''AEAHGJ''] \<and>
   privateDecrypt sample_platform ''KEY'' (base64_decode sample_platform ''AEAHGJ'') =
     Inl (Error ''decrypt'') \<and>
   privateDecrypt sample_platform ''KEY'' (base64_decode sample_platform ''ADAHGI'') = Inr [104]"
  by code_simp

theorem chunk_failure_reported_witness:
  "''KEY'' \<noteq> [] \<and> chunkCount ''2:ADAHGI:AEAHGJ'' = Some 2 \<and> (1::int) \<le> 2 \<and>
   2 = int (length (encryptedChunks ''2:ADAHGI:AEAHGJ'')) \<and>
   1 < length (encryptedChunks ''2:ADAHGI:AEAHGJ'') \<and>
   privateDecrypt sample_platform ''KEY''
     (base64_decode sample_platform (encryptedChunks ''2:ADAHGI:AEAHGJ'' ! 1)) = Inl (Error ''decrypt'') \<and>
   decrypt sample_platform ''2:ADAHGI:AEAHGJ'' ''KEY'' =
     Inl (Error (''Decryption failed for chunk '' @ show_nat 2 @
                 ''. The private key may be incorrect or the data may be corrupted.''))"
proof -
  have k: "''KEY'' \<noteq> []" by simp
  have c: "chunkCount ''2:ADAHGI:AEAHGJ'' = Some 2" using sample_bad_token by simp
  have o: "(1::int) \<le> 2" by simp
  have n: "2 = int (length (encryptedChunks ''2:ADAHGI:AEAHGJ''))" using sample_bad_token by simp
  have i: "1 < length (encryptedChunks ''2:ADAHGI:AEAHGJ'')" using sample_bad_token by simp
  have f: "privateDecrypt sample_platform ''KEY''
     (base64_decode sample_platform (encryptedChunks ''2:ADAHGI:AEAHGJ'' ! 1)) = Inl (Error ''decrypt'')"
    using sample_bad_token by simp
  from chunk_failure_reported [OF k c o n i f] obtain j where
    j: "j \<le> 1"
       "decrypt sample_platform ''2:ADAHGI:AEAHGJ'' ''KEY'' =
          Inl (Error (''Decryption failed for chunk '' @ show_nat (j + 1) @
                      ''. The private key may be incorrect or the data may be corrupted.''))"
       "\<forall>k < j. \<exists>d. privateDecrypt sample_platform ''KEY''
            (base64_decode sample_platform (encryptedChunks ''2:ADAHGI:AEAHGJ'' ! k)) = Inr d"
       "\<exists>e'. privateDecrypt sample_platform ''KEY''
            (base64_decode sample_platform (encryptedChunks ''2:ADAHGI:AEAHGJ'' ! j)) = Inl e'"
    by blast
  have "j \<noteq> 0"
  proof
    assume "j = 0"
    with j(4) sample_bad_token show False by simp
  qed
  with j(1) have "j + 1 = 2" by simp
  with j(2) have d: "decrypt sample_platform ''2:ADAHGI:AEAHGJ'' ''KEY'' =
     Inl (Error (''Decryption failed for chunk '' @ show_nat 2 @
                 ''. The private key may be incorrect or the data may be corrupted.''))"
    by (simp only:)
  show ?thesis
    by (intro conjI) (rule k c o n i f d)+
qed

section \<open>Claims about the server\<close>

text \<open>
  C5 (policy dispatch), as the handler has it. The claim as stated fails: a request with
  the right key and type \<open>history\<close> but no \<open>Data\<close> field makes \<open>JSON.stringify\<close> yield
  \<open>undefined\<close>, \<open>encrypt\<close> refuses it, the request is answered 500 and \<open>history.txt\<close> is
  not written.
\<close>

theorem policy_dispatch_counterexample:
  "key (sample_body\<lparr>Type := Some (JString ''history'')\<rparr>) = Some (JString (API_KEY sample_config)) \<and>
   Type (sample_body\<lparr>Type := Some (JString ''history'')\<rparr>) = Some (JString ''history'') \<and>
   toLowerCase sample_platform ''history'' = ''history'' \<and>
   Data (sample_body\<lparr>Type := Some (JString ''history'')\<rparr>) = None \<and>
   fst (api_post sample_config sample_platform sample_rnd ''now'' sample_fs
          (sample_body\<lparr>Type := Some (JString ''history'')\<rparr>)) =
     Response 500 (ErrorMessageJson ''Internal server error''
                     (Error ''Text must be a non-empty string'')) \<and>
   snd (api_post sample_config sample_platform sample_rnd ''now'' sample_fs
          (sample_body\<lparr>Type := Some (JString ''history'')\<rparr>))
     [''srv'', ''data'', ''a@b.c'', ''history.txt''] = None"
  by code_simp

text \<open>
  C5, amended. Let the request carry the right key, let its type be a string \<open>t\<close>, let
  its identity (\<open>Email\<close>, or \<open>Unknown\<close> for an absent or falsy one) be a string whose
  directory \<open>ensureUserFolder\<close> ensures, leaving the file system \<open>fs1\<close>, and let the time
  stamp convert to text. If \<open>t\<close> in lower case is one of \<open>history\<close>, \<open>cookies\<close>,
  \<open>bookmarks\<close>, \<open>downloads\<close>, \<open>Data\<close> is present, \<open>encrypt\<close> makes a token of
  \<open>JSON.stringify(Data)\<close> with the loaded public key, and the file of that name with
  the ending \<open>.txt\<close> in the identity's directory can be written, then the request is
  answered with success and leaves \<open>fs1\<close> with that file holding exactly the token: the
  content is replaced, not extended. If \<open>t\<close> in lower case is one of the four and
  \<open>Data\<close> is absent, the request is answered 500 with the complaint of \<open>encrypt\<close>, and
  the category file is as it was before the request. If \<open>t\<close> in lower case is \<open>opened\<close>
  or \<open>input\<close>, the field and the message (\<open>N/A\<close> for an absent or falsy one) convert to
  text and \<open>logs.txt\<close> of the directory can be written, then the request is answered with
  success and leaves \<open>fs1\<close> with \<open>logs.txt\<close> holding its former content followed by one
  record made of the time stamp, the type in upper case, the field and the message;
  each of the four category files is as it was before the request.
\<close>

theorem policy_dispatch:
  assumes auth: "key req = Some (JString (API_KEY cfg))"
    and ty: "Type req = Some (JString t)"
    and ident: "or_else (Email req) (JString ''Unknown'') = JString email"
    and ens: "ensureUserFolder cfg fs email = Inr (userFolder, fs1)"
    and ts: "template L (or_else (Time req) (JString now)) = Inr timestamp"
  shows "(\<forall>d token.
            toLowerCase L t \<in> set category_types \<and> Data req = Some d \<and>
            encrypt L (Some (stringify L d)) (PUBLIC_KEY cfg) rnd = Inr token \<and>
            writable fs1 (userFolder @ [toLowerCase L t @ ''.txt'']) = None \<longrightarrow>
            api_post cfg L rnd now fs req =
              (Response 200 (SuccessJson True ''Message received''),
               fs1(userFolder @ [toLowerCase L t @ ''.txt''] \<mapsto> File token))) \<and>
         (toLowerCase L t \<in> set category_types \<and> Data req = None \<longrightarrow>
            api_post cfg L rnd now fs req =
              (Response 500 (ErrorMessageJson ''Internal server error''
                               (Error ''Text must be a non-empty string'')), fs1) \<and>
            fs1 (userFolder @ [toLowerCase L t @ ''.txt'']) =
              fs (userFolder @ [toLowerCase L t @ ''.txt''])) \<and>
         (\<forall>field message.
            (toLowerCase L t = ''opened'' \<or> toLowerCase L t = ''input'') \<and>
            template L (or_else (Field' req) (JString ''N/A'')) = Inr field \<and>
            template L (or_else (Message req) (JString ''N/A'')) = Inr message \<and>
            writable fs1 (userFolder @ [''logs.txt'']) = None \<longrightarrow>
            api_post cfg L rnd now fs req =
              (Response 200 (SuccessJson True ''Message received''),
               fs1(userFolder @ [''logs.txt''] \<mapsto>
                 File ((case fs1 (userFolder @ [''logs.txt'']) of Some (File old) \<Rightarrow> old | _ \<Rightarrow> []) @
                       ''['' @ timestamp @ ''] '' @
                       or_default (Some (toUpperCase L t)) ''MESSAGE'' @ LF @
                       ''  Field: '' @ field @ LF @
                       ''  Message: '' @ message @ LF @
                       ''---'' @ LF @ LF))) \<and>
            (\<forall>c \<in> set category_types.
               snd (api_post cfg L rnd now fs req) (userFolder @ [c @ ''.txt'']) =
               fs (userFolder @ [c @ ''.txt''])))"
proof (intro conjI allI impI)
  note p = process_message_typed [OF ident ens ty ts, of rnd]
  fix d token
  assume h: "toLowerCase L t \<in> set category_types \<and> Data req = Some d \<and>
            encrypt L (Some (stringify L d)) (PUBLIC_KEY cfg) rnd = Inr token \<and>
            writable fs1 (userFolder @ [toLowerCase L t @ ''.txt'']) = None"
  then have "save_category cfg L rnd fs1 userFolder (toLowerCase L t) req =
           (None, fs1(userFolder @ [toLowerCase L t @ ''.txt''] \<mapsto> File token))"
    by (intro save_category_stored) blast+
  with h show "api_post cfg L rnd now fs req =
              (Response 200 (SuccessJson True ''Message received''),
               fs1(userFolder @ [toLowerCase L t @ ''.txt''] \<mapsto> File token))"
    by (simp add: api_post_authorized [OF auth] p)
next
  note p = process_message_typed [OF ident ens ty ts, of rnd]
  assume h: "toLowerCase L t \<in> set category_types \<and> Data req = None"
  then show "api_post cfg L rnd now fs req =
              (Response 500 (ErrorMessageJson ''Internal server error''
                               (Error ''Text must be a non-empty string'')), fs1)"
    by (simp add: api_post_authorized [OF auth] p save_category_no_data)
  show "fs1 (userFolder @ [toLowerCase L t @ ''.txt'']) =
              fs (userFolder @ [toLowerCase L t @ ''.txt''])"
    by (rule category_file_kept [OF ens])
next
  note p = process_message_typed [OF ident ens ty ts, of rnd]
  fix field message
  assume h: "(toLowerCase L t = ''opened'' \<or> toLowerCase L t = ''input'') \<and>
            template L (or_else (Field' req) (JString ''N/A'')) = Inr field \<and>
            template L (or_else (Message req) (JString ''N/A'')) = Inr message \<and>
            writable fs1 (userFolder @ [''logs.txt'']) = None"
  then have nc: "toLowerCase L t \<notin> set category_types" and lt: "toLowerCase L t \<in> set log_types"
    by (auto simp: category_types_def log_types_def)
  have a: "append_log L fs1 userFolder timestamp (or_default (Some (toUpperCase L t)) ''MESSAGE'')
             (toLowerCase L t) req =
           (None, fs1(userFolder @ [''logs.txt''] \<mapsto>
              File ((case fs1 (userFolder @ [''logs.txt'']) of Some (File old) \<Rightarrow> old | _ \<Rightarrow> []) @
                    ''['' @ timestamp @ ''] '' @ or_default (Some (toUpperCase L t)) ''MESSAGE'' @ LF @
                    ''  Field: '' @ field @ LF @
                    ''  Message: '' @ message @ LF @
                    ''---'' @ LF @ LF)))"
    using h by (intro append_log_stored) blast+
  show r: "api_post cfg L rnd now fs req =
              (Response 200 (SuccessJson True ''Message received''),
               fs1(userFolder @ [''logs.txt''] \<mapsto>
                 File ((case fs1 (userFolder @ [''logs.txt'']) of Some (File old) \<Rightarrow> old | _ \<Rightarrow> []) @
                       ''['' @ timestamp @ ''] '' @
                       or_default (Some (toUpperCase L t)) ''MESSAGE'' @ LF @
                       ''  Field: '' @ field @ LF @
                       ''  Message: '' @ message @ LF @
                       ''---'' @ LF @ LF)))"
    using nc lt by (simp only: api_post_authorized [OF auth] p a if_False if_True fst_conv snd_conv option.case)
  show "\<forall>c \<in> set category_types.
               snd (api_post cfg L rnd now fs req) (userFolder @ [c @ ''.txt'']) =
               fs (userFolder @ [c @ ''.txt''])"
  proof
    fix c assume c: "c \<in> set category_types"
    then have "c @ ''.txt'' \<noteq> ''logs.txt''" by (auto simp: category_types_def)
    then have "snd (api_post cfg L rnd now fs req) (userFolder @ [c @ ''.txt'']) =
               fs1 (userFolder @ [c @ ''.txt''])"
      unfolding r by simp
    then show "snd (api_post cfg L rnd now fs req) (userFolder @ [c @ ''.txt'']) =
               fs (userFolder @ [c @ ''.txt''])"
      by (simp add: category_file_kept [OF ens])
  qed
qed

theorem policy_dispatch_witness:
  "key (sample_body\<lparr>Type := Some (JString ''Cookies''), Data := Some (JString ''x'')\<rparr>) =
     Some (JString (API_KEY sample_config)) \<and>
   Type (sample_body\<lparr>Type := Some (JString ''Cookies''), Data := Some (JString ''x'')\<rparr>) =
     Some (JString ''Cookies'') \<and>
   or_else (Email (sample_body\<lparr>Type := Some (JString ''Cookies''), Data := Some (JString ''x'')\<rparr>))
     (JString ''Unknown'') = JString ''a@b.c'' \<and>
   ensureUserFolder sample_config sample_fs ''a@b.c'' =
     Inr ([''srv'', ''data'', ''a@b.c''], sample_fs_user) \<and>
   template sample_platform
     (or_else (Time (sample_body\<lparr>Type := Some (JString ''Cookies''), Data := Some (JString ''x'')\<rparr>))
        (JString ''now'')) = Inr ''noon'' \<and>
   toLowerCase sample_platform ''Cookies'' \<in> set category_types \<and>
   Data (sample_body\<lparr>Type := Some (JString ''Cookies''), Data := Some (JString ''x'')\<rparr>) =
     Some (JString ''x'') \<and>
   encrypt sample_platform (Some (stringify sample_platform (JString ''x''))) (PUBLIC_KEY sample_config)
     sample_rnd = Inr ''1:ADAHCCHICC'' \<and>
   writable sample_fs_user
     ([''srv'', ''data'', ''a@b.c''] @ [toLowerCase sample_platform ''Cookies'' @ ''.txt'']) = None \<and>
   api_post sample_config sample_platform sample_rnd ''now'' sample_fs
     (sample_body\<lparr>Type := Some (JString ''Cookies''), Data := Some (JString ''x'')\<rparr>) =
     (Response 200 (SuccessJson True ''Message received''),
      sample_fs_user([''srv'', ''data'', ''a@b.c''] @ [toLowerCase sample_platform ''Cookies'' @ ''.txt'']
                       \<mapsto> File ''1:ADAHCCHICC'')) \<and>
   key (sample_body\<lparr>Type := Some (JString ''Opened'')\<rparr>) = Some (JString (API_KEY sample_config)) \<and>
   Type (sample_body\<lparr>Type := Some (JString ''Opened'')\<rparr>) = Some (JString ''Opened'') \<and>
   (toLowerCase sample_platform ''Opened'' = ''opened'' \<or>
    toLowerCase sample_platform ''Opened'' = ''input'') \<and>
   template sample_platform
     (or_else (Field' (sample_body\<lparr>Type := Some (JString ''Opened'')\<rparr>)) (JString ''N/A'')) = Inr ''q'' \<and>
   template sample_platform
     (or_else (Message (sample_body\<lparr>Type := Some (JString ''Opened'')\<rparr>)) (JString ''N/A'')) =
     Inr ''hi'' \<and>
   writable sample_fs_user ([''srv'', ''data'', ''a@b.c''] @ [''logs.txt'']) = None \<and>
   api_post sample_config sample_platform sample_rnd ''now'' sample_fs
     (sample_body\<lparr>Type := Some (JString ''Opened'')\<rparr>) =
     (Response 200 (SuccessJson True ''Message received''),
      sample_fs_user([''srv'', ''data'', ''a@b.c''] @ [''logs.txt''] \<mapsto>
        File ((case sample_fs_user ([''srv'', ''data'', ''a@b.c''] @ [''logs.txt'']) of
                 Some (File old) \<Rightarrow> old | _ \<Rightarrow> []) @
              ''['' @ ''noon'' @ ''] '' @
              or_default (Some (toUpperCase sample_platform ''Opened'')) ''MESSAGE'' @ LF @
              ''  Field: '' @ ''q'' @ LF @ ''  Message: '' @ ''hi'' @ LF @ ''---'' @ LF @ LF)))"
proof -
  let ?c = "sample_body\<lparr>Type := Some (JString ''Cookies''), Data := Some (JString ''x'')\<rparr>"
  let ?o = "sample_body\<lparr>Type := Some (JString ''Opened'')\<rparr>"
  from sample_cookies have
    k: "key ?c = Some (JString (API_KEY sample_config))"
    and ty: "Type ?c = Some (JString ''Cookies'')"
    and ident: "or_else (Email ?c) (JString ''Unknown'') = JString ''a@b.c''"
    and ts: "template sample_platform (or_else (Time ?c) (JString ''now'')) = Inr ''noon''"
    and lo: "toLowerCase sample_platform ''Cookies'' = ''cookies''"
    and cat: "''cookies'' \<in> set category_types"
    and d: "Data ?c = Some (JString ''x'')"
    and enc: "encrypt sample_platform (Some (stringify sample_platform (JString ''x'')))
                (PUBLIC_KEY sample_config) sample_rnd = Inr ''1:ADAHCCHICC''"
    and w: "writable sample_fs_user ([''srv'', ''data'', ''a@b.c''] @ [''cookies'' @ ''.txt'']) = None"
    by blast+
  have cat': "toLowerCase sample_platform ''Cookies'' \<in> set category_types"
    using cat by (simp only: lo)
  have w': "writable sample_fs_user
     ([''srv'', ''data'', ''a@b.c''] @ [toLowerCase sample_platform ''Cookies'' @ ''.txt'']) = None"
    using w by (simp only: lo)
  note ens = sample_user_folder_named
  have r1: "api_post sample_config sample_platform sample_rnd ''now'' sample_fs ?c =
     (Response 200 (SuccessJson True ''Message received''),
      sample_fs_user([''srv'', ''data'', ''a@b.c''] @ [toLowerCase sample_platform ''Cookies'' @ ''.txt'']
                       \<mapsto> File ''1:ADAHCCHICC''))"
    using policy_dispatch [OF k ty ident ens ts, of sample_rnd, THEN conjunct1, rule_format,
        of "JString ''x''" "''1:ADAHCCHICC''"] cat' d enc w'
    by blast
  from sample_opened have
    k2: "key ?o = Some (JString (API_KEY sample_config))"
    and ty2: "Type ?o = Some (JString ''Opened'')"
    and ident2: "or_else (Email ?o) (JString ''Unknown'') = JString ''a@b.c''"
    and ts2: "template sample_platform (or_else (Time ?o) (JString ''now'')) = Inr ''noon''"
    and lo2: "toLowerCase sample_platform ''Opened'' = ''opened''"
    and f2: "template sample_platform (or_else (Field' ?o) (JString ''N/A'')) = Inr ''q''"
    and m2: "template sample_platform (or_else (Message ?o) (JString ''N/A'')) = Inr ''hi''"
    and w2: "writable sample_fs_user ([''srv'', ''data'', ''a@b.c''] @ [''logs.txt'']) = None"
    by blast+
  have o2: "toLowerCase sample_platform ''Opened'' = ''opened'' \<or>
            toLowerCase sample_platform ''Opened'' = ''input''"
    using lo2 by blast
  have r2: "api_post sample_config sample_platform sample_rnd ''now'' sample_fs ?o =
     (Response 200 (SuccessJson True ''Message received''),
      sample_fs_user([''srv'', ''data'', ''a@b.c''] @ [''logs.txt''] \<mapsto>
        File ((case sample_fs_user ([''srv'', ''data'', ''a@b.c''] @ [''logs.txt'']) of
                 Some (File old) \<Rightarrow> old | _ \<Rightarrow> []) @
              ''['' @ ''noon'' @ ''] '' @
              or_default (Some (toUpperCase sample_platform ''Opened'')) ''MESSAGE'' @ LF @
              ''  Field: '' @ ''q'' @ LF @ ''  Message: '' @ ''hi'' @ LF @ ''---'' @ LF @ LF)))"
    using policy_dispatch [OF k2 ty2 ident2 ens ts2, of sample_rnd, THEN conjunct2, THEN conjunct2,
        rule_format, of "''q''" "''hi''", THEN conjunct1] o2 f2 m2 w2
    by blast
  show ?thesis
    by (intro conjI) (rule k ty ident ens ts cat' d enc w' r1 k2 ty2 o2 f2 m2 w2 r2)+
qed




text \<open>
  C7 (outcome of a request). Let the server have handled the requests \<open>earlier\<close>, and
  let \<open>r\<close> arrive next. If the \<open>key\<close> of \<open>r\<close> is not the configured secret, \<open>r\<close> is answered
  401 \<open>Unauthorized\<close> and the file system stays as it is. If the key is right and the
  processing throws nothing, \<open>r\<close> is answered 200 with \<open>success: true\<close>. If the key is
  right and the processing throws \<open>e\<close>, \<open>r\<close> is answered 500 with the message of \<open>e\<close>, and
  the server keeps serving: the requests \<open>later\<close> that follow \<open>r\<close> are handled as usual,
  on the file system the failed processing left, so the answers to the whole run are
  the answers to \<open>earlier\<close>, the 500, and the answers to \<open>later\<close>. In every case each
  request of the run gets one answer.
\<close>

theorem ingestion_outcome:
  "(key (payload r) \<noteq> Some (JString (API_KEY cfg)) \<longrightarrow>
      api_post cfg L (seeds r) (clock r) (snd (serve cfg L fs earlier)) (payload r) =
        (Response 401 (ErrorJson ''Unauthorized''), snd (serve cfg L fs earlier))) \<and>
   (key (payload r) = Some (JString (API_KEY cfg)) \<and>
    fst (process_message cfg L (seeds r) (clock r) (snd (serve cfg L fs earlier)) (payload r)) = None \<longrightarrow>
      fst (api_post cfg L (seeds r) (clock r) (snd (serve cfg L fs earlier)) (payload r)) =
        Response 200 (SuccessJson True ''Message received'')) \<and>
   (\<forall>e. key (payload r) = Some (JString (API_KEY cfg)) \<and>
        fst (process_message cfg L (seeds r) (clock r) (snd (serve cfg L fs earlier)) (payload r)) = Some e \<longrightarrow>
      fst (api_post cfg L (seeds r) (clock r) (snd (serve cfg L fs earlier)) (payload r)) =
        Response 500 (ErrorMessageJson ''Internal server error'' e) \<and>
      fst (serve cfg L fs (earlier @ r # later)) =
        fst (serve cfg L fs earlier) @
        Response 500 (ErrorMessageJson ''Internal server error'' e) #
        fst (serve cfg L
               (snd (process_message cfg L (seeds r) (clock r) (snd (serve cfg L fs earlier)) (payload r)))
               later)) \<and>
   length (fst (serve cfg L fs (earlier @ r # later))) = length earlier + 1 + length later"
proof (intro conjI allI impI)
  assume "key (payload r) \<noteq> Some (JString (API_KEY cfg))"
  then show "api_post cfg L (seeds r) (clock r) (snd (serve cfg L fs earlier)) (payload r) =
        (Response 401 (ErrorJson ''Unauthorized''), snd (serve cfg L fs earlier))"
    by (simp add: api_post_def)
next
  assume "key (payload r) = Some (JString (API_KEY cfg)) \<and>
    fst (process_message cfg L (seeds r) (clock r) (snd (serve cfg L fs earlier)) (payload r)) = None"
  then show "fst (api_post cfg L (seeds r) (clock r) (snd (serve cfg L fs earlier)) (payload r)) =
        Response 200 (SuccessJson True ''Message received'')"
    by (simp add: api_post_authorized)
next
  fix e
  assume h: "key (payload r) = Some (JString (API_KEY cfg)) \<and>
        fst (process_message cfg L (seeds r) (clock r) (snd (serve cfg L fs earlier)) (payload r)) = Some e"
  then show a: "fst (api_post cfg L (seeds r) (clock r) (snd (serve cfg L fs earlier)) (payload r)) =
        Response 500 (ErrorMessageJson ''Internal server error'' e)"
    by (simp add: api_post_authorized)
  have s: "snd (api_post cfg L (seeds r) (clock r) (snd (serve cfg L fs earlier)) (payload r)) =
        snd (process_message cfg L (seeds r) (clock r) (snd (serve cfg L fs earlier)) (payload r))"
    using h by (simp add: api_post_authorized)
  show "fst (serve cfg L fs (earlier @ r # later)) =
        fst (serve cfg L fs earlier) @
        Response 500 (ErrorMessageJson ''Internal server error'' e) #
        fst (serve cfg L
               (snd (process_message cfg L (seeds r) (clock r) (snd (serve cfg L fs earlier)) (payload r)))
               later)"
    by (simp only: serve_append serve_Cons fst_conv a s)
next
  show "length (fst (serve cfg L fs (earlier @ r # later))) = length earlier + 1 + length later"
    by (simp add: serve_length)
qed

theorem ingestion_outcome_witness:
  "key (payload \<lparr>payload = sample_body\<lparr>Type := Some (JString ''history'')\<rparr>,
                 seeds = sample_rnd, clock = ''now''\<rparr>) = Some (JString (API_KEY sample_config)) \<and>
   fst (process_message sample_config sample_platform sample_rnd ''now'' sample_fs
          (sample_body\<lparr>Type := Some (JString ''history'')\<rparr>)) =
     Some (Error ''Text must be a non-empty string'') \<and>
   fst (api_post sample_config sample_platform sample_rnd ''now'' sample_fs
          (sample_body\<lparr>Type := Some (JString ''history'')\<rparr>)) =
     Response 500 (ErrorMessageJson ''Internal server error''
                     (Error ''Text must be a non-empty string'')) \<and>
   fst (serve sample_config sample_platform sample_fs sample_run) =
     [Response 500 (ErrorMessageJson ''Internal server error''
                      (Error ''Text must be a non-empty string'')),
      Response 401 (ErrorJson ''Unauthorized''),
      Response 200 (SuccessJson True ''Message received'')]"
proof -
  let ?r = "\<lparr>payload = sample_body\<lparr>Type := Some (JString ''history'')\<rparr>,
             seeds = sample_rnd, clock = ''now''\<rparr>"
  from sample_run_answers have
    run: "fst (serve sample_config sample_platform sample_fs sample_run) =
     [Response 500 (ErrorMessageJson ''Internal server error''
                      (Error ''Text must be a non-empty string'')),
      Response 401 (ErrorJson ''Unauthorized''),
      Response 200 (SuccessJson True ''Message received'')]"
    and k: "key (sample_body\<lparr>Type := Some (JString ''history'')\<rparr>) =
              Some (JString (API_KEY sample_config))"
    and p: "fst (process_message sample_config sample_platform sample_rnd ''now'' sample_fs
          (sample_body\<lparr>Type := Some (JString ''history'')\<rparr>)) =
     Some (Error ''Text must be a non-empty string'')"
    by blast+
  have k': "key (payload ?r) = Some (JString (API_KEY sample_config))"
    using k by simp
  have a: "fst (api_post sample_config sample_platform sample_rnd ''now'' sample_fs
          (sample_body\<lparr>Type := Some (JString ''history'')\<rparr>)) =
     Response 500 (ErrorMessageJson ''Internal server error''
                     (Error ''Text must be a non-empty string''))"
    using ingestion_outcome [of ?r sample_config sample_platform sample_fs "[]" "[]",
        THEN conjunct2, THEN conjunct2, THEN conjunct1, rule_format,
        of "Error ''Text must be a non-empty string''"] k p
    by simp
  show ?thesis
    by (intro conjI) (rule k' p a run)+
qed




text \<open>
  C9 (idempotent directory creation). When \<open>ensureUserFolder\<close> has returned a path for
  an identity, calling it again for the same identity on the file system it left
  returns the same path, throws nothing, and leaves the file system as it is.
\<close>

theorem ensureUserFolder_idempotent:
  assumes "ensureUserFolder cfg fs email = Inr (userFolder, fs1)"
  shows "ensureUserFolder cfg fs1 email = Inr (userFolder, fs1)"
  using ensureUserFolder_Inr(1,2) [OF assms]
  by (simp add: ensureUserFolder_def)

theorem ensureUserFolder_idempotent_witness:
  "ensureUserFolder sample_config sample_fs ''a@b.c'' =
     Inr ([''srv'', ''data'', ''a@b.c''],
          (\<lambda>q. if q \<noteq> [] \<and> prefix q [''srv'', ''data'', ''a@b.c''] \<and> sample_fs q = None
               then Some Dir else sample_fs q)) \<and>
   ensureUserFolder sample_config
     (\<lambda>q. if q \<noteq> [] \<and> prefix q [''srv'', ''data'', ''a@b.c''] \<and> sample_fs q = None
          then Some Dir else sample_fs q) ''a@b.c'' =
     Inr ([''srv'', ''data'', ''a@b.c''],
          (\<lambda>q. if q \<noteq> [] \<and> prefix q [''srv'', ''data'', ''a@b.c''] \<and> sample_fs q = None
               then Some Dir else sample_fs q))"
  using ensureUserFolder_idempotent [OF sample_user_folder] sample_user_folder by blast

text \<open>
  C10 (unauthorized requests). A request whose \<open>key\<close> is not the configured secret is
  answered 401 and the file system after it is the file system before it: the handler
  returns before the directory is ensured and before anything is written.
\<close>

theorem unauthorized_side_effect_free:
  assumes "key req \<noteq> Some (JString (API_KEY cfg))"
  shows "api_post cfg L rnd now fs req = (Response 401 (ErrorJson ''Unauthorized''), fs)"
  using assms by (simp add: api_post_def)

theorem unauthorized_side_effect_free_witness:
  "key (sample_body\<lparr>key := Some (JString ''guess''), Type := Some (JString ''cookies''),
                     Data := Some (JString ''x'')\<rparr>)
     \<noteq> Some (JString (API_KEY sample_config)) \<and>
   api_post sample_config sample_platform sample_rnd ''now'' sample_fs
     (sample_body\<lparr>key := Some (JString ''guess''), Type := Some (JString ''cookies''),
                   Data := Some (JString ''x'')\<rparr>) =
     (Response 401 (ErrorJson ''Unauthorized''), sample_fs)"
proof -
  have k: "key (sample_body\<lparr>key := Some (JString ''guess''), Type := Some (JString ''cookies''),
                     Data := Some (JString ''x'')\<rparr>)
     \<noteq> Some (JString (API_KEY sample_config))"
    by (simp add: sample_config_def)
  show ?thesis
    using unauthorized_side_effect_free [OF k] k by blast
qed

end
